theory Spec2Isabelle
  imports Main "HOL-Library.Word" "HOL-Library.Multiset"
begin

unbundle bit_operations_syntax

section \<open>Shared data model\<close>

text \<open>
  Solvable ids, string ids and dependency ids are libsolv's \<open>Id\<close>, a C \<open>int\<close>.  Id 0 is
  "none", id 1 is the system solvable; packages start at 2.
\<close>

type_synonym Id = int

text \<open>
  The error codes of \<open>HifError\<close> that the modelled functions raise.  The enumeration is
  declared in a header outside the sources at hand; only the fact that its members are
  distinct and non-zero is used, so it is a datatype here.
\<close>

datatype hif_error =
    HIF_ERROR_FAILED
  | HIF_ERROR_INTERNAL_ERROR
  | HIF_ERROR_FAILED_CONFIG_PARSING
  | HIF_ERROR_INVALID_ARCHITECTURE
  | HIF_ERROR_BAD_SELECTOR
  | HIF_ERROR_NO_SOLUTION
  | HIF_ERROR_REMOVAL_OF_PROTECTED_PKG
  | HIF_ERROR_NO_SPACE
  | HIF_ERROR_BAD_QUERY
  | HIF_ERROR_PACKAGE_NOT_FOUND
  | HIF_ERROR_FILE_INVALID
  | HIF_ERROR_FILE_NOT_FOUND
  | HIF_ERROR_GPG_SIGNATURE_INVALID

text \<open>
  An \<open>int\<close> return code of the C functions that return either 0, 1 or a \<open>HifError\<close>
  member.
\<close>

datatype retcode = RET_0 | RET_1 | RET_ERROR hif_error

text \<open>
  A failed \<open>assert\<close>, or a read through a pointer that the C code does not check, ends
  the run; it is the left summand of every fallible function below.
\<close>

datatype abort = AssertFailed | InvalidRead

subsection \<open>Comparison flags (hy-types.h)\<close>

definition HY_ICASE :: int where "HY_ICASE = 1"
definition HY_NOT :: int where "HY_NOT = 2"
definition HY_COMPARISON_FLAG_MASK :: int where "HY_COMPARISON_FLAG_MASK = 3"
definition HY_EQ :: int where "HY_EQ = 256"
definition HY_LT :: int where "HY_LT = 512"
definition HY_GT :: int where "HY_GT = 1024"
definition HY_SUBSTR :: int where "HY_SUBSTR = 2048"
definition HY_GLOB :: int where "HY_GLOB = 4096"
definition HY_NEQ :: int where "HY_NEQ = 258"

subsection \<open>Solver job flags (libsolv, solver.h) and known ids (knownid.h)\<close>

definition SOLVER_SOLVABLE :: int where "SOLVER_SOLVABLE = 1"
definition SOLVER_SOLVABLE_NAME :: int where "SOLVER_SOLVABLE_NAME = 2"
definition SOLVER_SOLVABLE_PROVIDES :: int where "SOLVER_SOLVABLE_PROVIDES = 3"
definition SOLVER_SOLVABLE_REPO :: int where "SOLVER_SOLVABLE_REPO = 5"
definition SOLVER_SOLVABLE_ALL :: int where "SOLVER_SOLVABLE_ALL = 6"
definition SOLVER_SELECTMASK :: int where "SOLVER_SELECTMASK = 255"
definition SOLVER_INSTALL :: int where "SOLVER_INSTALL = 256"
definition SOLVER_ERASE :: int where "SOLVER_ERASE = 512"
definition SOLVER_UPDATE :: int where "SOLVER_UPDATE = 768"
definition SOLVER_MULTIVERSION :: int where "SOLVER_MULTIVERSION = 1280"
definition SOLVER_DISTUPGRADE :: int where "SOLVER_DISTUPGRADE = 1792"
definition SOLVER_VERIFY :: int where "SOLVER_VERIFY = 2048"
definition SOLVER_USERINSTALLED :: int where "SOLVER_USERINSTALLED = 2560"
definition SOLVER_ALLOWUNINSTALL :: int where "SOLVER_ALLOWUNINSTALL = 2816"
definition SOLVER_WEAK :: int where "SOLVER_WEAK = 65536"
definition SOLVER_CLEANDEPS :: int where "SOLVER_CLEANDEPS = 262144"
definition SOLVER_FORCEBEST :: int where "SOLVER_FORCEBEST = 1048576"
definition SOLVER_SETEV :: int where "SOLVER_SETEV = 16777216"
definition SOLVER_SETEVR :: int where "SOLVER_SETEVR = 33554432"
definition SOLVER_SETARCH :: int where "SOLVER_SETARCH = 67108864"
definition SOLVER_SETREPO :: int where "SOLVER_SETREPO = 268435456"

definition SOLVABLE_NAME :: int where "SOLVABLE_NAME = 2"
definition SOLVABLE_PROVIDES :: int where "SOLVABLE_PROVIDES = 6"

definition REL_EQ :: int where "REL_EQ = 2"
definition REL_ARCH :: int where "REL_ARCH = 20"

definition SELECTION_GLOB :: int where "SELECTION_GLOB = 512"
definition SELECTION_NOCASE :: int where "SELECTION_NOCASE = 2048"
definition SELECTION_FILELIST :: int where "SELECTION_FILELIST = 8"

subsection \<open>Filters (struct \_Filter)\<close>

datatype keyname =
    HY_PKG | HY_PKG_ALL | HY_PKG_ARCH | HY_PKG_CONFLICTS | HY_PKG_DESCRIPTION
  | HY_PKG_EPOCH | HY_PKG_EVR | HY_PKG_FILE | HY_PKG_NAME | HY_PKG_NEVRA
  | HY_PKG_OBSOLETES | HY_PKG_PROVIDES | HY_PKG_RELEASE | HY_PKG_REPONAME
  | HY_PKG_REQUIRES | HY_PKG_SOURCERPM | HY_PKG_SUMMARY | HY_PKG_URL
  | HY_PKG_VERSION | HY_PKG_LOCATION | HY_PKG_ENHANCES | HY_PKG_RECOMMENDS
  | HY_PKG_SUGGESTS | HY_PKG_SUPPLEMENTS | HY_PKG_ADVISORY | HY_PKG_ADVISORY_BUG
  | HY_PKG_ADVISORY_CVE | HY_PKG_ADVISORY_SEVERITY | HY_PKG_ADVISORY_TYPE

datatype match_type = HY_VOID | HY_NUM | HY_PKGSET | HY_RELDEP | HY_STR

text \<open>
  \<open>union _Match\<close>: the member that was stored.  A package set is the set of ids whose
  bit is set in its bitmap; a reldep is its interned id.
\<close>

datatype match = MatchNum int | MatchPset "Id set" | MatchReldep Id | MatchStr string

record hy_filter =
  cmp_type :: int
  keyname :: keyname
  match_type :: match_type
  matches :: "match list"

abbreviation nmatches :: "hy_filter \<Rightarrow> nat" where
  "nmatches f \<equiv> length (matches f)"

section \<open>Selectors and their translation into solver jobs (hy-goal.c)\<close>

text \<open>
  A job queue holds the (how, what) pairs that \<open>queue_push2\<close> appends.
\<close>

type_synonym job = "(Id \<times> Id) list"

record selector =
  f_arch :: "hy_filter option"
  f_evr :: "hy_filter option"
  f_file :: "hy_filter option"
  f_name :: "hy_filter option"
  f_provides :: "hy_filter option"
  f_reponame :: "hy_filter option"

text \<open>
  What the translation asks of libsolv's pool, which is outside the repository:
  \<open>pool_str2id\<close> without creation (0 when the string is unknown), the name ids which a
  \<open>SEARCH_GLOB\<close> data iteration over \<open>SOLVABLE_NAME\<close> meets on package solvables, the id
  under \<open>di.idp\<close> when the iteration over \<open>SOLVABLE_PROVIDES\<close> stops (\<open>None\<close> for a
  null \<open>di.idp\<close>), \<open>selection_make\<close> (its return value and the queue it leaves),
  \<open>str2archid\<close>, \<open>pool_rel2id\<close>, \<open>selection_filter\<close> and the repositories
  (\<open>repoid\<close>, name) in the order of \<open>FOR_REPOS\<close>.
\<close>

record pool_ops =
  pool_str2id :: "string \<Rightarrow> Id"
  pool_str2id_create :: "string \<Rightarrow> Id"
  glob_name_ids :: "string \<Rightarrow> Id list"
  glob_provides_idp :: "string \<Rightarrow> Id option"
  selection_make :: "job \<Rightarrow> string \<Rightarrow> int \<Rightarrow> int \<times> job"
  str2archid :: "string \<Rightarrow> Id"
  pool_rel2id :: "Id \<Rightarrow> Id \<Rightarrow> int \<Rightarrow> Id"
  selection_filter :: "job \<Rightarrow> job \<Rightarrow> job"
  repos :: "(Id \<times> string) list"

definition job_has :: "job \<Rightarrow> Id \<Rightarrow> Id \<Rightarrow> bool" where
  "job_has jb what ident = list_ex (\<lambda>(h, w). h = what \<and> w = ident) jb"

text \<open>\<open>f->matches[0].str\<close> under \<open>assert(f->nmatches == 1)\<close>.\<close>

definition the_str :: "hy_filter \<Rightarrow> abort + string" where
  "the_str f =
     (if nmatches f \<noteq> 1 then Inl AssertFailed
      else case matches f ! 0 of MatchStr s \<Rightarrow> Inr s | _ \<Rightarrow> Inl InvalidRead)"

text \<open>
  The loops of \<open>filter_arch2job\<close> and \<open>filter_evr2job\<close> over the job pairs: each
  selection must be by name, gets the constraint flag and its operand becomes the
  relation id.
\<close>

fun constrain_job :: "pool_ops \<Rightarrow> Id \<Rightarrow> int \<Rightarrow> int \<Rightarrow> job \<Rightarrow> abort + job" where
  "constrain_job ops rid rel flag [] = Inr []"
| "constrain_job ops rid rel flag ((h, w) # rest) =
     (if h AND SOLVER_SELECTMASK \<noteq> SOLVER_SOLVABLE_NAME then Inl AssertFailed
      else case constrain_job ops rid rel flag rest of
             Inl a \<Rightarrow> Inl a
           | Inr rest' \<Rightarrow> Inr ((h OR flag, pool_rel2id ops w rid rel) # rest'))"

definition filter_arch2job :: "pool_ops \<Rightarrow> hy_filter option \<Rightarrow> job \<Rightarrow> abort + retcode \<times> job" where
  "filter_arch2job ops fo jb =
     (case fo of
        None \<Rightarrow> Inr (RET_0, jb)
      | Some f \<Rightarrow>
          if cmp_type f \<noteq> HY_EQ then Inl AssertFailed
          else case the_str f of
            Inl a \<Rightarrow> Inl a
          | Inr arch \<Rightarrow>
              let archid = str2archid ops arch in
              if archid = 0 then Inr (RET_ERROR HIF_ERROR_INVALID_ARCHITECTURE, jb)
              else case constrain_job ops archid REL_ARCH SOLVER_SETARCH jb of
                     Inl a \<Rightarrow> Inl a
                   | Inr jb' \<Rightarrow> Inr (RET_0, jb'))"

definition filter_evr2job :: "pool_ops \<Rightarrow> hy_filter option \<Rightarrow> job \<Rightarrow> abort + retcode \<times> job" where
  "filter_evr2job ops fo jb =
     (case fo of
        None \<Rightarrow> Inr (RET_0, jb)
      | Some f \<Rightarrow>
          if cmp_type f \<noteq> HY_EQ then Inl AssertFailed
          else case the_str f of
            Inl a \<Rightarrow> Inl a
          | Inr s \<Rightarrow>
              let evr = pool_str2id_create ops s;
                  constr = (if keyname f = HY_PKG_VERSION then SOLVER_SETEV else SOLVER_SETEVR)
              in case constrain_job ops evr REL_EQ constr jb of
                   Inl a \<Rightarrow> Inl a
                 | Inr jb' \<Rightarrow> Inr (RET_0, jb'))"

definition filter_file2job :: "pool_ops \<Rightarrow> hy_filter option \<Rightarrow> job \<Rightarrow> abort + retcode \<times> job" where
  "filter_file2job ops fo jb =
     (case fo of
        None \<Rightarrow> Inr (RET_0, jb)
      | Some f \<Rightarrow>
          (case the_str f of
             Inl a \<Rightarrow> Inl a
           | Inr file \<Rightarrow>
               let flags0 = (if cmp_type f AND HY_GLOB \<noteq> 0 then SELECTION_GLOB else 0);
                   flags = (if cmp_type f AND HY_GLOB \<noteq> 0 then flags0 OR SELECTION_NOCASE
                            else flags0);
                   (r, jb') = selection_make ops jb file (flags OR SELECTION_FILELIST)
               in if r = 0 then Inr (RET_1, jb') else Inr (RET_0, jb')))"

text \<open>The \<open>HY_GLOB\<close> loop of \<open>filter_name2job\<close> over the ids the data iterator yields.\<close>

fun push_new_names :: "job \<Rightarrow> Id list \<Rightarrow> job" where
  "push_new_names jb [] = jb"
| "push_new_names jb (i # ids) =
     (if job_has jb SOLVABLE_NAME i then push_new_names jb ids
      else push_new_names (jb @ [(SOLVER_SOLVABLE_NAME, i)]) ids)"

definition filter_name2job :: "pool_ops \<Rightarrow> hy_filter option \<Rightarrow> job \<Rightarrow> abort + retcode \<times> job" where
  "filter_name2job ops fo jb =
     (case fo of
        None \<Rightarrow> Inr (RET_0, jb)
      | Some f \<Rightarrow>
          (case the_str f of
             Inl a \<Rightarrow> Inl a
           | Inr name \<Rightarrow>
               if cmp_type f = HY_EQ then
                 (let i = pool_str2id ops name
                  in Inr (RET_0, if i \<noteq> 0 then jb @ [(SOLVER_SOLVABLE_NAME, i)] else jb))
               else if cmp_type f = HY_GLOB then
                 Inr (RET_0, push_new_names jb (glob_name_ids ops name))
               else Inl AssertFailed))"

definition filter_provides2job :: "pool_ops \<Rightarrow> hy_filter option \<Rightarrow> job \<Rightarrow> abort + retcode \<times> job" where
  "filter_provides2job ops fo jb =
     (case fo of
        None \<Rightarrow> Inr (RET_0, jb)
      | Some f \<Rightarrow>
          if nmatches f \<noteq> 1 then Inl AssertFailed
          else if cmp_type f = HY_EQ then
            (case matches f ! 0 of
               MatchReldep i \<Rightarrow> Inr (RET_0, jb @ [(SOLVER_SOLVABLE_PROVIDES, i)])
             | _ \<Rightarrow> Inl InvalidRead)
          else if cmp_type f = HY_GLOB then
            (case matches f ! 0 of
               MatchStr name \<Rightarrow>
                 (case glob_provides_idp ops name of
                    None \<Rightarrow> Inl AssertFailed
                  | Some i \<Rightarrow>
                      Inr (RET_0, if \<not> job_has jb SOLVABLE_PROVIDES i
                                  then jb @ [(SOLVER_SOLVABLE_PROVIDES, i)] else jb))
             | _ \<Rightarrow> Inl InvalidRead)
          else Inl AssertFailed)"

definition filter_reponame2job :: "pool_ops \<Rightarrow> hy_filter option \<Rightarrow> job \<Rightarrow> abort + retcode \<times> job" where
  "filter_reponame2job ops fo jb =
     (case fo of
        None \<Rightarrow> Inr (RET_0, jb)
      | Some f \<Rightarrow>
          if cmp_type f \<noteq> HY_EQ then Inl AssertFailed
          else case the_str f of
            Inl a \<Rightarrow> Inl a
          | Inr s \<Rightarrow>
              let repo_sel = map (\<lambda>(rid, nm). (SOLVER_SOLVABLE_REPO OR SOLVER_SETREPO, rid))
                                 (filter (\<lambda>(rid, nm). s = nm) (repos ops))
              in Inr (RET_0, selection_filter ops jb repo_sel))"

text \<open>
  One step of the chain in \<open>sltr2job\<close>: run the next translation unless an earlier one
  returned non-zero (\<open>if (ret) goto finish\<close>).
\<close>

definition and_then ::
  "(abort + retcode \<times> job) \<Rightarrow> (job \<Rightarrow> abort + retcode \<times> job) \<Rightarrow> abort + retcode \<times> job" where
  "and_then r k =
     (case r of
        Inl a \<Rightarrow> Inl a
      | Inr (rc, jb) \<Rightarrow> if rc \<noteq> RET_0 then Inr (rc, jb) else k jb)"

text \<open>
  \<open>sltr2job\<close> returns the error code and the caller's job queue.  The selector's own
  queue \<open>job_sltr\<close> is local; its pairs reach the caller's queue, with the solver action
  or-ed in, only when every step returned 0.
\<close>

definition sltr2job :: "pool_ops \<Rightarrow> selector \<Rightarrow> job \<Rightarrow> int \<Rightarrow> abort + retcode \<times> job" where
  "sltr2job ops sltr jb solver_action =
     (let any_opt_filter = (f_arch sltr \<noteq> None \<or> f_evr sltr \<noteq> None \<or> f_reponame sltr \<noteq> None);
          any_req_filter = (f_name sltr \<noteq> None \<or> f_provides sltr \<noteq> None \<or> f_file sltr \<noteq> None)
      in if \<not> any_req_filter then
           (if any_opt_filter then Inr (RET_ERROR HIF_ERROR_BAD_SELECTOR, jb)
            else Inr (RET_0, jb))
         else
           case and_then (and_then (and_then (and_then (and_then
                  (filter_name2job ops (f_name sltr) [])
                  (filter_file2job ops (f_file sltr)))
                  (filter_provides2job ops (f_provides sltr)))
                  (filter_arch2job ops (f_arch sltr)))
                  (filter_evr2job ops (f_evr sltr)))
                  (filter_reponame2job ops (f_reponame sltr)) of
             Inl a \<Rightarrow> Inl a
           | Inr (rc, job_sltr) \<Rightarrow>
               if rc \<noteq> RET_0 then Inr (rc, jb)
               else Inr (RET_0, jb @ map (\<lambda>(h, w). (h OR solver_action, w)) job_sltr))"

subsection \<open>Example pool and selectors\<close>

definition example_ops :: pool_ops where
  "example_ops =
     \<lparr> pool_str2id = (\<lambda>s. if s = ''kernel'' then 10 else 0),
       pool_str2id_create = (\<lambda>s. if s = ''kernel'' then 10 else 11),
       glob_name_ids = (\<lambda>s. []),
       glob_provides_idp = (\<lambda>s. None),
       selection_make = (\<lambda>jb s fl. (0, [])),
       str2archid = (\<lambda>s. if s = ''x86_64'' then 20 else 0),
       pool_rel2id = (\<lambda>a b r. a + b + r),
       selection_filter = (\<lambda>jb sel. jb),
       repos = [(1, ''@System'')] \<rparr>"

definition empty_selector :: selector where
  "empty_selector =
     \<lparr> f_arch = None, f_evr = None, f_file = None, f_name = None, f_provides = None,
       f_reponame = None \<rparr>"

definition arch_only_selector :: selector where
  "arch_only_selector =
     empty_selector \<lparr> f_arch := Some \<lparr> cmp_type = HY_EQ, keyname = HY_PKG_ARCH,
                                         match_type = HY_STR, matches = [MatchStr ''x86_64''] \<rparr> \<rparr>"

section \<open>Packages (hif-package.c)\<close>

datatype state_action =
    HIF_STATE_ACTION_UNKNOWN | HIF_STATE_ACTION_INSTALL | HIF_STATE_ACTION_REINSTALL
  | HIF_STATE_ACTION_DOWNGRADE | HIF_STATE_ACTION_UPDATE | HIF_STATE_ACTION_REMOVE
  | HIF_STATE_ACTION_OBSOLETE | HIF_STATE_ACTION_CLEANUP

text \<open>
  A \<open>HifRepo\<close>, as far as the package and the transaction driver read it:
  \<open>hif_repo_get_id\<close>, \<open>hif_repo_get_location\<close>, \<open>hif_repo_get_packages\<close>,
  \<open>hif_repo_is_local\<close> and \<open>hif_repo_get_gpgcheck\<close>.
\<close>

record hif_repo =
  repo_id :: string
  repo_location :: string
  repo_packages :: string
  repo_is_local :: bool
  repo_gpgcheck :: bool

text \<open>
  A package.  The first group of fields is what the accessors of the solvable return
  (\<open>hif_package_get_name\<close>, \<open>_get_evr\<close>, \<open>_get_version\<close>, \<open>_get_release\<close>, \<open>_get_arch\<close>,
  \<open>_get_nevra\<close>, \<open>_get_reponame\<close>, \<open>_get_location\<close>, \<open>_installed\<close>,
  \<open>_get_downloadsize\<close>); \<open>pkg_pkgid\<close> is what \<open>hif_package_get_pkgid\<close> returns, which may
  be \<open>NULL\<close>.  The second group is \<open>HifPackagePrivate\<close>, where a null pointer is \<open>None\<close>;
  a package just made by \<open>hif_package_new\<close> has all of them null.
\<close>

record hif_package =
  pkg_id :: Id
  pkg_name :: string
  pkg_evr :: string
  pkg_version :: string
  pkg_release :: string
  pkg_arch :: string
  pkg_nevra :: string
  pkg_pkgid :: "string option"
  pkg_reponame :: string
  pkg_location :: string
  pkg_installed :: bool
  pkg_downloadsize :: "64 word"
  pkg_filename :: "string option"
  pkg_origin :: "string option"
  pkg_package_id :: "string option"
  pkg_repo :: "hif_repo option"
  pkg_action :: state_action

text \<open>
  The names of the repo of installed packages and of the repo of packages given on the
  command line, from hy-types.h.
\<close>

definition HY_SYSTEM_REPO_NAME :: string where
  "HY_SYSTEM_REPO_NAME = ''@System''"

definition HY_CMDLINE_REPO_NAME :: string where
  "HY_CMDLINE_REPO_NAME = ''@commandline''"

text \<open>\<open>g_strjoin (";", ...)\<close> of the name and of the three others, each \<open>""\<close> when null.\<close>

definition hif_package_id_build ::
  "string \<Rightarrow> string option \<Rightarrow> string option \<Rightarrow> string option \<Rightarrow> string" where
  "hif_package_id_build name version arch data =
     name @ '';'' @ (case version of None \<Rightarrow> [] | Some v \<Rightarrow> v)
          @ '';'' @ (case arch of None \<Rightarrow> [] | Some a \<Rightarrow> a)
          @ '';'' @ (case data of None \<Rightarrow> [] | Some d \<Rightarrow> d)"

text \<open>
  \<open>hif_package_get_package_id\<close>: the stored id if there is one, else the id built from
  name, EVR, arch and the repo name, where the repo of installed packages reads
  \<open>installed\<close> or \<open>installed:origin\<close> and the command-line repo reads \<open>local\<close>.  The
  function also stores what it has built in \<open>priv->package_id\<close>; a later call on the
  same package then returns the same string, as does building it again from unchanged
  fields, so the store is not kept here.
\<close>

definition hif_package_get_package_id :: "hif_package \<Rightarrow> string" where
  "hif_package_get_package_id pkg =
     (case pkg_package_id pkg of
        Some package_id \<Rightarrow> package_id
      | None \<Rightarrow>
          let reponame =
                (if pkg_reponame pkg = HY_SYSTEM_REPO_NAME
                 then (case pkg_origin pkg of
                         Some origin \<Rightarrow> ''installed:'' @ origin
                       | None \<Rightarrow> ''installed'')
                 else if pkg_reponame pkg = HY_CMDLINE_REPO_NAME then ''local''
                 else pkg_reponame pkg)
          in hif_package_id_build (pkg_name pkg) (Some (pkg_evr pkg)) (Some (pkg_arch pkg))
               (Some reponame))"

definition hif_package_set_filename :: "hif_package \<Rightarrow> string option \<Rightarrow> hif_package" where
  "hif_package_set_filename pkg filename = pkg \<lparr> pkg_filename := filename \<rparr>"

definition hif_package_set_repo :: "hif_package \<Rightarrow> hif_repo \<Rightarrow> hif_package" where
  "hif_package_set_repo pkg repo = pkg \<lparr> pkg_repo := Some repo \<rparr>"

text \<open>
  The GLib calls of \<open>hif_package_get_filename\<close>: \<open>g_build_filename\<close> of two elements,
  \<open>g_path_get_basename\<close> and \<open>g_file_test\<close> for existence.
\<close>

record path_ops =
  build_filename :: "string \<Rightarrow> string \<Rightarrow> string"
  path_get_basename :: "string \<Rightarrow> string"
  file_test_exists :: "string \<Rightarrow> bool"

text \<open>
  \<open>hif_package_get_filename\<close> returns the file name, \<open>NULL\<close> for an installed package,
  and the package, in which it has stored the default location in the cache if no
  file name was set and the repo is known.
\<close>

definition hif_package_get_filename ::
  "path_ops \<Rightarrow> hif_package \<Rightarrow> string option \<times> hif_package" where
  "hif_package_get_filename po pkg =
     (if pkg_installed pkg then (None, pkg)
      else case pkg_repo pkg of
        None \<Rightarrow> (pkg_filename pkg, pkg)
      | Some repo \<Rightarrow>
          if pkg_filename pkg \<noteq> None then (pkg_filename pkg, pkg)
          else
            let filename = build_filename po (repo_location repo) (pkg_location pkg);
                filename' =
                  (if \<not> repo_is_local repo \<or> \<not> file_test_exists po filename
                   then build_filename po (repo_packages repo)
                          (path_get_basename po (pkg_location pkg))
                   else filename)
            in (Some filename', pkg \<lparr> pkg_filename := Some filename' \<rparr>))"

section \<open>The reason store (hif-db.c)\<close>

text \<open>
  \<open>HifDbPrivate\<close>: the context is read only for its install root.
\<close>

record hif_db =
  install_root :: string
  enabled :: bool

text \<open>
  The GLib and GIO calls of hif-db.c on a store of type \<open>'fs\<close>.  They are outside the
  repository, so they are parameters.  A call that can change the store returns the
  store it leaves.  \<open>g_dir_names\<close> is \<open>g_dir_open\<close> followed by the names that
  \<open>g_dir_read_name\<close> yields (\<open>None\<close> when the directory cannot be opened).
\<close>

record 'fs gio_ops =
  g_file_test_is_dir :: "'fs \<Rightarrow> string \<Rightarrow> bool"
  g_file_test_exists :: "'fs \<Rightarrow> string \<Rightarrow> bool"
  g_file_make_directory_with_parents :: "'fs \<Rightarrow> string \<Rightarrow> bool \<times> 'fs"
  g_file_get_contents :: "'fs \<Rightarrow> string \<Rightarrow> string option"
  g_file_set_contents :: "'fs \<Rightarrow> string \<Rightarrow> string \<Rightarrow> bool \<times> 'fs"
  g_file_delete :: "'fs \<Rightarrow> string \<Rightarrow> bool \<times> 'fs"
  g_dir_names :: "'fs \<Rightarrow> string \<Rightarrow> string list option"
  g_build_filename :: "string \<Rightarrow> string \<Rightarrow> string"

text \<open>
  How a call of the reason store fails: a \<open>g_return_val_if_fail\<close> precondition (a
  \<open>NULL\<close> argument), a \<open>HifError\<close> with its message, or the error of a GIO call.
\<close>

datatype db_error = PreconditionFailed | DbError hif_error string | GioError

definition yumdb_dir :: string where
  "yumdb_dir = ''/var/lib/yum/yumdb''"

text \<open>
  \<open>"%s%s/%c/%s-%s-%s-%s-%s"\<close>.  For an empty name \<open>%c\<close> writes the terminating NUL of
  the name, which ends the C string there.
\<close>

definition hif_db_get_dir_for_package :: "hif_db \<Rightarrow> hif_package \<Rightarrow> string option" where
  "hif_db_get_dir_for_package db package =
     (case pkg_pkgid package of
        None \<Rightarrow> None
      | Some pkgid \<Rightarrow>
          let instroot = (if install_root db = ''/'' then '''' else install_root db)
          in case pkg_name package of
               [] \<Rightarrow> Some (instroot @ yumdb_dir @ ''/'')
             | c # _ \<Rightarrow>
                 Some (instroot @ yumdb_dir @ ''/'' @ [c] @ ''/'' @ pkgid @ ''-''
                       @ pkg_name package @ ''-'' @ pkg_version package @ ''-''
                       @ pkg_release package @ ''-'' @ pkg_arch package))"

definition hif_db_create_dir :: "'fs gio_ops \<Rightarrow> 'fs \<Rightarrow> string \<Rightarrow> bool \<times> 'fs" where
  "hif_db_create_dir gio fs dir =
     (if g_file_test_is_dir gio fs dir then (True, fs)
      else g_file_make_directory_with_parents gio fs dir)"

definition hif_db_get_string ::
  "'fs gio_ops \<Rightarrow> hif_db \<Rightarrow> 'fs \<Rightarrow> hif_package option \<Rightarrow> string option \<Rightarrow> db_error + string" where
  "hif_db_get_string gio db fs package key =
     (case package of
        None \<Rightarrow> Inl PreconditionFailed
      | Some pkg \<Rightarrow>
     (case key of
        None \<Rightarrow> Inl PreconditionFailed
      | Some k \<Rightarrow>
     (case hif_db_get_dir_for_package db pkg of
        None \<Rightarrow>
          Inl (DbError HIF_ERROR_FAILED (''cannot read index for '' @ hif_package_get_package_id pkg))
      | Some index_dir \<Rightarrow>
          let filename = g_build_filename gio index_dir k
          in if \<not> g_file_test_exists gio fs filename
             then Inl (DbError HIF_ERROR_FAILED (filename @ '' key not found''))
             else case g_file_get_contents gio fs filename of
                    None \<Rightarrow> Inl GioError
                  | Some v \<Rightarrow> Inr v)))"

definition hif_db_set_string ::
  "'fs gio_ops \<Rightarrow> hif_db \<Rightarrow> 'fs \<Rightarrow> hif_package option \<Rightarrow> string option \<Rightarrow> string option
     \<Rightarrow> (db_error + unit) \<times> 'fs" where
  "hif_db_set_string gio db fs package key val =
     (case package of
        None \<Rightarrow> (Inl PreconditionFailed, fs)
      | Some pkg \<Rightarrow>
     (case key of
        None \<Rightarrow> (Inl PreconditionFailed, fs)
      | Some k \<Rightarrow>
     (case val of
        None \<Rightarrow> (Inl PreconditionFailed, fs)
      | Some v \<Rightarrow>
          if \<not> enabled db then (Inr (), fs)
          else case hif_db_get_dir_for_package db pkg of
            None \<Rightarrow>
              (Inl (DbError HIF_ERROR_FAILED
                      (''cannot create index for '' @ hif_package_get_package_id pkg)), fs)
          | Some index_dir \<Rightarrow>
              (case hif_db_create_dir gio fs index_dir of
                 (False, fs1) \<Rightarrow> (Inl GioError, fs1)
               | (True, fs1) \<Rightarrow>
                   (case g_file_set_contents gio fs1 (g_build_filename gio index_dir k) v of
                      (False, fs2) \<Rightarrow> (Inl GioError, fs2)
                    | (True, fs2) \<Rightarrow> (Inr (), fs2))))))"

definition hif_db_remove ::
  "'fs gio_ops \<Rightarrow> hif_db \<Rightarrow> 'fs \<Rightarrow> hif_package option \<Rightarrow> string option
     \<Rightarrow> (db_error + unit) \<times> 'fs" where
  "hif_db_remove gio db fs package key =
     (case package of
        None \<Rightarrow> (Inl PreconditionFailed, fs)
      | Some pkg \<Rightarrow>
     (case key of
        None \<Rightarrow> (Inl PreconditionFailed, fs)
      | Some k \<Rightarrow>
          if \<not> enabled db then (Inr (), fs)
          else case hif_db_get_dir_for_package db pkg of
            None \<Rightarrow>
              (Inl (DbError HIF_ERROR_FAILED
                      (''cannot create index for '' @ hif_package_get_package_id pkg)), fs)
          | Some index_dir \<Rightarrow>
              (case g_file_delete gio fs (g_build_filename gio index_dir k) of
                 (False, fs1) \<Rightarrow> (Inl GioError, fs1)
               | (True, fs1) \<Rightarrow> (Inr (), fs1))))"

text \<open>The loop of \<open>hif_db_remove_all\<close>: delete each entry, ignoring errors.\<close>

fun delete_each :: "'fs gio_ops \<Rightarrow> string \<Rightarrow> 'fs \<Rightarrow> string list \<Rightarrow> 'fs" where
  "delete_each gio index_dir fs [] = fs"
| "delete_each gio index_dir fs (filename # rest) =
     delete_each gio index_dir
       (snd (g_file_delete gio fs (g_build_filename gio index_dir filename))) rest"

definition hif_db_remove_all ::
  "'fs gio_ops \<Rightarrow> hif_db \<Rightarrow> 'fs \<Rightarrow> hif_package option \<Rightarrow> (db_error + unit) \<times> 'fs" where
  "hif_db_remove_all gio db fs package =
     (case package of
        None \<Rightarrow> (Inl PreconditionFailed, fs)
      | Some pkg \<Rightarrow>
          if \<not> enabled db then (Inr (), fs)
          else case hif_db_get_dir_for_package db pkg of
            None \<Rightarrow>
              (Inl (DbError HIF_ERROR_FAILED
                      (''cannot create index for '' @ hif_package_get_package_id pkg)), fs)
          | Some index_dir \<Rightarrow>
              if \<not> g_file_test_is_dir gio fs index_dir then (Inr (), fs)
              else case g_dir_names gio fs index_dir of
                None \<Rightarrow> (Inl GioError, fs)
              | Some names \<Rightarrow>
                  (case g_file_delete gio (delete_each gio index_dir fs names) index_dir of
                     (False, fs1) \<Rightarrow> (Inl GioError, fs1)
                   | (True, fs1) \<Rightarrow> (Inr (), fs1)))"

definition hif_db_set_enabled :: "hif_db \<Rightarrow> bool \<Rightarrow> hif_db" where
  "hif_db_set_enabled db en = db \<lparr> enabled := en \<rparr>"

subsection \<open>An in-memory store for the examples\<close>

text \<open>
  Files are an association from path to contents; directories are not tracked (every
  directory exists and lists no names).
\<close>

type_synonym mem_fs = "(string \<times> string) list"

definition mem_gio :: "mem_fs gio_ops" where
  "mem_gio =
     \<lparr> g_file_test_is_dir = (\<lambda>fs p. True),
       g_file_test_exists = (\<lambda>fs p. map_of fs p \<noteq> None),
       g_file_make_directory_with_parents = (\<lambda>fs p. (True, fs)),
       g_file_get_contents = (\<lambda>fs p. map_of fs p),
       g_file_set_contents = (\<lambda>fs p v. (True, (p, v) # fs)),
       g_file_delete = (\<lambda>fs p. (map_of fs p \<noteq> None, filter (\<lambda>e. fst e \<noteq> p) fs)),
       g_dir_names = (\<lambda>fs p. Some []),
       g_build_filename = (\<lambda>d k. d @ ''/'' @ k) \<rparr>"

definition example_pkg :: hif_package where
  "example_pkg =
     \<lparr> pkg_id = 2, pkg_name = ''tour'', pkg_evr = ''4-6'', pkg_version = ''4'',
       pkg_release = ''6'', pkg_arch = ''noarch'', pkg_nevra = ''tour-4-6.noarch'',
       pkg_pkgid = Some ''abc'', pkg_reponame = ''main'',
       pkg_location = ''Packages/tour-4-6.noarch.rpm'', pkg_installed = False,
       pkg_downloadsize = 100, pkg_filename = None, pkg_origin = None,
       pkg_package_id = None, pkg_repo = None, pkg_action = HIF_STATE_ACTION_INSTALL \<rparr>"

definition example_db :: hif_db where
  "example_db = \<lparr> install_root = ''/'', enabled = True \<rparr>"

definition example_fs :: mem_fs where
  "example_fs = [(''/var/lib/yum/yumdb/t/abc-tour-4-6-noarch/reason'', ''user'')]"

section \<open>The query engine (hy-query.c)\<close>

text \<open>
  A libsolv \<open>Map\<close> is a bitmap over solvable ids; it is the set of ids whose bit is set.
  All bitmaps of one pool are created with \<open>pool->nsolvables\<close> bits, so the byte loops
  of \<open>map_and\<close>, \<open>map_or\<close> and \<open>map_subtract\<close> are intersection, union and difference.
\<close>

definition HY_IGNORE_EXCLUDES :: int where "HY_IGNORE_EXCLUDES = 1"

text \<open>
  The functions of hy-query.c that fill the per-filter bitmap by walking libsolv's data
  (data iterators, the provides index, EVR comparison, \<open>fnmatch\<close>).
\<close>

datatype producer =
    FILTER_RCO_RELDEP | FILTER_EPOCH | FILTER_EVR | FILTER_NEVRA | FILTER_VERSION
  | FILTER_RELEASE | FILTER_SOURCERPM | FILTER_OBSOLETES | FILTER_PROVIDES_RELDEP
  | FILTER_REPONAME | FILTER_LOCATION | FILTER_ADVISORY | FILTER_DATAITERATOR

text \<open>
  The pool as the query engine and the goal read it.  \<open>is_pkg\<close> holds of the
  solvables that \<open>FOR_PKG_SOLVABLES\<close> visits among the ids from 2 below
  \<open>nsolvables\<close>; \<open>considered\<close> is \<open>pool->considered\<close> after
  \<open>dnf_sack_recompute_considered\<close> (\<open>None\<close> for a null map); \<open>whatprovides d\<close> lists
  the ids \<open>FOR_PROVIDES\<close> visits for the dependency \<open>d\<close>; \<open>produce\<close> gives the bitmap a
  producer sets for a filter, given the current result.
\<close>

record pool =
  nsolvables :: int
  is_pkg :: "Id \<Rightarrow> bool"
  considered :: "Id set option"
  solvable_name :: "Id \<Rightarrow> Id"
  solvable_arch :: "Id \<Rightarrow> Id"
  solvable_evr :: "Id \<Rightarrow> Id"
  pool_evrcmp :: "Id \<Rightarrow> Id \<Rightarrow> int"
  has_installed :: bool
  is_installed :: "Id \<Rightarrow> bool"
  what_downgrades :: "Id \<Rightarrow> Id"
  what_upgrades :: "Id \<Rightarrow> Id"
  whatprovides :: "Id \<Rightarrow> Id list"
  solvable_requires :: "Id \<Rightarrow> Id list"
  pool_id2str :: "Id \<Rightarrow> string"
  produce :: "producer \<Rightarrow> Id set \<Rightarrow> hy_filter \<Rightarrow> abort + Id set"

definition pkg_solvables :: "pool \<Rightarrow> Id list" where
  "pkg_solvables pool = filter (is_pkg pool) [2 ..(nsolvables pool - 1)]"

record query =
  q_flags :: int
  applied :: bool
  result :: "Id set option"
  filters :: "hy_filter list"
  downgradable :: int
  downgrades :: int
  updatable :: int
  updates :: int
  latest :: int
  latest_per_arch :: int

subsection \<open>Sorting\<close>

text \<open>
  \<open>solv_sort\<close> is libsolv's sort with a three-way comparison callback.  Modelled as an
  insertion sort; where the callback is a strict total order on the elements sorted,
  every sort returns the same queue.
\<close>

fun insort_cmp :: "('a \<Rightarrow> 'a \<Rightarrow> int) \<Rightarrow> 'a \<Rightarrow> 'a list \<Rightarrow> 'a list" where
  "insort_cmp cmp x [] = [x]"
| "insort_cmp cmp x (y # ys) = (if cmp x y \<le> 0 then x # y # ys else y # insort_cmp cmp x ys)"

definition solv_sort :: "('a \<Rightarrow> 'a \<Rightarrow> int) \<Rightarrow> 'a list \<Rightarrow> 'a list" where
  "solv_sort cmp xs = foldr (insort_cmp cmp) xs []"

subsection \<open>Per-filter bitmaps\<close>

definition filter_pkg :: "hy_filter \<Rightarrow> abort + Id set" where
  "filter_pkg f =
     (if nmatches f \<noteq> 1 then Inl AssertFailed
      else if match_type f \<noteq> HY_PKGSET then Inl AssertFailed
      else case matches f ! 0 of MatchPset s \<Rightarrow> Inr s | _ \<Rightarrow> Inl InvalidRead)"

definition filter_all :: "hy_filter \<Rightarrow> abort + Id set" where
  "filter_all f =
     (if nmatches f \<noteq> 1 then Inl AssertFailed
      else if match_type f \<noteq> HY_NUM then Inl AssertFailed
      else if cmp_type f \<noteq> HY_EQ then Inl AssertFailed
      else case matches f ! 0 of
             MatchNum n \<Rightarrow> if n \<noteq> - 1 then Inl AssertFailed else Inr {}
           | _ \<Rightarrow> Inl InvalidRead)"

text \<open>The \<open>switch (f->keyname)\<close> of \<open>hy_query_apply\<close>, on an emptied bitmap.\<close>

definition compute_m :: "pool \<Rightarrow> Id set \<Rightarrow> hy_filter \<Rightarrow> abort + Id set" where
  "compute_m pool res f =
     (case keyname f of
        HY_PKG \<Rightarrow> filter_pkg f
      | HY_PKG_ALL \<Rightarrow> filter_all f
      | HY_PKG_CONFLICTS \<Rightarrow> produce pool FILTER_RCO_RELDEP res f
      | HY_PKG_EPOCH \<Rightarrow> produce pool FILTER_EPOCH res f
      | HY_PKG_EVR \<Rightarrow> produce pool FILTER_EVR res f
      | HY_PKG_NEVRA \<Rightarrow> produce pool FILTER_NEVRA res f
      | HY_PKG_VERSION \<Rightarrow> produce pool FILTER_VERSION res f
      | HY_PKG_RELEASE \<Rightarrow> produce pool FILTER_RELEASE res f
      | HY_PKG_SOURCERPM \<Rightarrow> produce pool FILTER_SOURCERPM res f
      | HY_PKG_OBSOLETES \<Rightarrow>
          if match_type f = HY_RELDEP then produce pool FILTER_RCO_RELDEP res f
          else if match_type f \<noteq> HY_PKGSET then Inl AssertFailed
          else produce pool FILTER_OBSOLETES res f
      | HY_PKG_PROVIDES \<Rightarrow>
          if match_type f \<noteq> HY_RELDEP then Inl AssertFailed
          else produce pool FILTER_PROVIDES_RELDEP res f
      | HY_PKG_ENHANCES \<Rightarrow>
          if match_type f \<noteq> HY_RELDEP then Inl AssertFailed
          else produce pool FILTER_RCO_RELDEP res f
      | HY_PKG_RECOMMENDS \<Rightarrow>
          if match_type f \<noteq> HY_RELDEP then Inl AssertFailed
          else produce pool FILTER_RCO_RELDEP res f
      | HY_PKG_REQUIRES \<Rightarrow>
          if match_type f \<noteq> HY_RELDEP then Inl AssertFailed
          else produce pool FILTER_RCO_RELDEP res f
      | HY_PKG_SUGGESTS \<Rightarrow>
          if match_type f \<noteq> HY_RELDEP then Inl AssertFailed
          else produce pool FILTER_RCO_RELDEP res f
      | HY_PKG_SUPPLEMENTS \<Rightarrow>
          if match_type f \<noteq> HY_RELDEP then Inl AssertFailed
          else produce pool FILTER_RCO_RELDEP res f
      | HY_PKG_REPONAME \<Rightarrow> produce pool FILTER_REPONAME res f
      | HY_PKG_LOCATION \<Rightarrow> produce pool FILTER_LOCATION res f
      | HY_PKG_ADVISORY \<Rightarrow> produce pool FILTER_ADVISORY res f
      | HY_PKG_ADVISORY_BUG \<Rightarrow> produce pool FILTER_ADVISORY res f
      | HY_PKG_ADVISORY_CVE \<Rightarrow> produce pool FILTER_ADVISORY res f
      | HY_PKG_ADVISORY_SEVERITY \<Rightarrow> produce pool FILTER_ADVISORY res f
      | HY_PKG_ADVISORY_TYPE \<Rightarrow> produce pool FILTER_ADVISORY res f
      | _ \<Rightarrow> produce pool FILTER_DATAITERATOR res f)"

subsection \<open>Evaluation\<close>

text \<open>
  \<open>init_result\<close>: every package solvable, intersected with the considered map unless the
  query ignores excludes; the last loop clears the bits from \<open>nsolvables\<close> on.
\<close>

definition init_result :: "pool \<Rightarrow> query \<Rightarrow> Id set" where
  "init_result pool q =
     (let r0 = set (pkg_solvables pool);
          r1 = (if q_flags q AND HY_IGNORE_EXCLUDES = 0
                then (case considered pool of None \<Rightarrow> r0 | Some c \<Rightarrow> r0 \<inter> c)
                else r0)
      in Set.filter (\<lambda>i. i < nsolvables pool) r1)"

text \<open>
  The loop \<open>for (i = 0; i < q->nfilters; ++i)\<close> of \<open>hy_query_apply\<close> from index \<open>i\<close>
  on, with the result bitmap so far.
\<close>

function apply_filters_from :: "pool \<Rightarrow> hy_filter list \<Rightarrow> nat \<Rightarrow> Id set \<Rightarrow> abort + Id set" where
  "apply_filters_from pool fs i res =
     (if i < length fs then
        (case compute_m pool res (fs ! i) of
           Inl a \<Rightarrow> Inl a
         | Inr m \<Rightarrow>
             apply_filters_from pool fs (Suc i)
               (if cmp_type (fs ! i) AND HY_NOT \<noteq> 0 then res - m else res \<inter> m))
      else Inr res)"
  by pat_completeness auto
termination
  by (relation "measure (\<lambda>(pool, fs, i, res). length fs - i)") auto

declare apply_filters_from.simps [simp del]

text \<open>
  The part of \<open>hy_query_apply\<close> before the modifiers, for a query that is not applied:
  the result is initialised only when the query has none yet.
\<close>

definition apply_filters :: "pool \<Rightarrow> query \<Rightarrow> abort + Id set" where
  "apply_filters pool q =
     apply_filters_from pool (filters q) 0
       (case result q of None \<Rightarrow> init_result pool q | Some r \<Rightarrow> r)"

definition filter_updown :: "pool \<Rightarrow> bool \<Rightarrow> Id set \<Rightarrow> abort + Id set" where
  "filter_updown pool downgrade res =
     (if \<not> has_installed pool then Inl AssertFailed
      else Inr (res \<inter> set (filter (\<lambda>i. i \<in> res \<and> \<not> is_installed pool i
                  \<and> (if downgrade then what_downgrades pool i > 0
                      else what_upgrades pool i > 0))
                 [1 ..(nsolvables pool - 1)])))"

definition filter_updown_able :: "pool \<Rightarrow> bool \<Rightarrow> Id set \<Rightarrow> abort + Id set" where
  "filter_updown_able pool dgable res =
     (if \<not> has_installed pool then Inl AssertFailed
      else let what = (\<lambda>p. if dgable then what_downgrades pool p else what_upgrades pool p)
           in Inr (res \<inter> set (map what
                     (filter (\<lambda>p. \<not> is_installed pool p \<and> what p \<noteq> 0 \<and> what p \<in> res)
                        (pkg_solvables pool)))))"

text \<open>
  The comparison callbacks of \<open>filter_latest\<close>.  In \<open>filter_latest_sortcmp\<close> both
  \<open>sa\<close> and \<open>sb\<close> are read from \<open>ap\<close>.
\<close>

definition filter_latest_sortcmp :: "pool \<Rightarrow> Id \<Rightarrow> Id \<Rightarrow> int" where
  "filter_latest_sortcmp pool a b =
     (let r = solvable_name pool a - solvable_name pool a
      in if r \<noteq> 0 then r else a - b)"

definition filter_latest_sortcmp_byarch :: "pool \<Rightarrow> Id \<Rightarrow> Id \<Rightarrow> int" where
  "filter_latest_sortcmp_byarch pool a b =
     (let r = solvable_name pool a - solvable_name pool b
      in if r \<noteq> 0 then r
         else let r' = solvable_arch pool a - solvable_arch pool b
              in if r' \<noteq> 0 then r' else a - b)"

text \<open>
  The scan of \<open>filter_latest\<close> over the sorted queue; \<open>hp\<close> is the id of \<open>highest\<close>
  (\<open>None\<close> while \<open>highest\<close> is null).
\<close>

fun latest_scan :: "pool \<Rightarrow> bool \<Rightarrow> Id option \<Rightarrow> Id set \<Rightarrow> Id list \<Rightarrow> Id set" where
  "latest_scan pool per_arch hp res [] = res"
| "latest_scan pool per_arch None res (p # ps) = latest_scan pool per_arch (Some p) res ps"
| "latest_scan pool per_arch (Some h) res (p # ps) =
     (if solvable_name pool h \<noteq> solvable_name pool p
         \<or> (per_arch \<and> solvable_arch pool h \<noteq> solvable_arch pool p)
      then latest_scan pool per_arch (Some p) res ps
      else if pool_evrcmp pool (solvable_evr pool h) (solvable_evr pool p) < 0
      then latest_scan pool per_arch (Some p) (res - {h}) ps
      else latest_scan pool per_arch (Some h) (res - {p}) ps)"

definition filter_latest :: "pool \<Rightarrow> query \<Rightarrow> Id set \<Rightarrow> Id set" where
  "filter_latest pool q res =
     (let samename = filter (\<lambda>i. i \<in> res) [1 ..(nsolvables pool - 1)]
      in if length samename < 2 then res
         else latest_scan pool (latest_per_arch q \<noteq> 0) None res
                (if latest_per_arch q \<noteq> 0
                 then solv_sort (filter_latest_sortcmp_byarch pool) samename
                 else solv_sort (filter_latest_sortcmp pool) samename))"

definition clear_filters :: "query \<Rightarrow> query" where
  "clear_filters q =
     q \<lparr> filters := [], downgradable := 0, downgrades := 0, updatable := 0, updates := 0,
         latest := 0, latest_per_arch := 0 \<rparr>"

text \<open>One modifier of \<open>hy_query_apply\<close>: run \<open>g\<close> when the flag is set.\<close>

definition modifier :: "int \<Rightarrow> (Id set \<Rightarrow> abort + Id set) \<Rightarrow> abort + Id set \<Rightarrow> abort + Id set" where
  "modifier flag g r =
     (case r of Inl a \<Rightarrow> Inl a | Inr res \<Rightarrow> if flag \<noteq> 0 then g res else Inr res)"

definition hy_query_apply :: "pool \<Rightarrow> query \<Rightarrow> abort + query" where
  "hy_query_apply pool q =
     (if applied q then Inr q
      else
        case modifier (latest q) (\<lambda>r. Inr (filter_latest pool q r))
               (modifier (updates q) (filter_updown pool False)
                 (modifier (updatable q) (filter_updown_able pool False)
                   (modifier (downgrades q) (filter_updown pool True)
                     (modifier (downgradable q) (filter_updown_able pool True)
                       (apply_filters pool q))))) of
          Inl a \<Rightarrow> Inl a
        | Inr res \<Rightarrow> Inr (clear_filters (q \<lparr> result := Some res, applied := True \<rparr>)))"

subsection \<open>Construction and staging\<close>

definition hy_query_create_flags :: "int \<Rightarrow> query" where
  "hy_query_create_flags flags =
     \<lparr> q_flags = flags, applied = False, result = None, filters = [], downgradable = 0,
       downgrades = 0, updatable = 0, updates = 0, latest = 0, latest_per_arch = 0 \<rparr>"

definition hy_query_create :: query where
  "hy_query_create = hy_query_create_flags 0"

definition match_type_pkg :: "keyname \<Rightarrow> bool" where
  "match_type_pkg k = (case k of HY_PKG \<Rightarrow> True | HY_PKG_OBSOLETES \<Rightarrow> True | _ \<Rightarrow> False)"

definition valid_filter_pkg :: "keyname \<Rightarrow> int \<Rightarrow> bool" where
  "valid_filter_pkg k ct = (if \<not> match_type_pkg k then False else ct = HY_EQ \<or> ct = HY_NEQ)"

definition query_add_filter :: "query \<Rightarrow> hy_filter \<Rightarrow> query" where
  "query_add_filter q f = q \<lparr> filters := filters q @ [f] \<rparr>"

text \<open>The filter that \<open>hy_query_filter_empty\<close> stages; \<open>q->applied\<close> is left as it is.\<close>

definition empty_filter :: hy_filter where
  "empty_filter =
     \<lparr> cmp_type = HY_EQ, keyname = HY_PKG_ALL, match_type = HY_NUM,
       matches = [MatchNum (- 1)] \<rparr>"

definition hy_query_filter_empty :: "query \<Rightarrow> retcode \<times> query" where
  "hy_query_filter_empty q = (RET_0, query_add_filter q empty_filter)"

definition hy_query_filter_package_in :: "query \<Rightarrow> keyname \<Rightarrow> int \<Rightarrow> Id set \<Rightarrow> retcode \<times> query" where
  "hy_query_filter_package_in q k ct pset =
     (if \<not> valid_filter_pkg k ct then (RET_ERROR HIF_ERROR_BAD_QUERY, q)
      else (RET_0, query_add_filter (q \<lparr> applied := False \<rparr>)
              \<lparr> cmp_type = ct, keyname = k, match_type = HY_PKGSET,
                matches = [MatchPset pset] \<rparr>))"

definition hy_query_filter_latest_per_arch :: "query \<Rightarrow> int \<Rightarrow> query" where
  "hy_query_filter_latest_per_arch q val =
     q \<lparr> applied := False, latest_per_arch := 1, latest := val \<rparr>"

definition hy_query_filter_latest :: "query \<Rightarrow> int \<Rightarrow> query" where
  "hy_query_filter_latest q val = q \<lparr> applied := False, latest_per_arch := 0, latest := val \<rparr>"

subsection \<open>Set algebra between queries\<close>

text \<open>
  Both queries are applied, then the bitmap of the first is combined with the bitmap of
  the second.  The functions return the first query as it is left; a query without a
  result bitmap after \<open>hy_query_apply\<close> is a null pointer passed to the map operation.
  When both arguments are one object, the second \<open>hy_query_apply\<close> finds it applied and
  returns at once, which is what applying the same value again yields here.
\<close>

definition combine_queries ::
  "(Id set \<Rightarrow> Id set \<Rightarrow> Id set) \<Rightarrow> pool \<Rightarrow> query \<Rightarrow> query \<Rightarrow> abort + query" where
  "combine_queries map_op pool q other =
     (case hy_query_apply pool q of
        Inl a \<Rightarrow> Inl a
      | Inr q' \<Rightarrow>
          (case hy_query_apply pool other of
             Inl a \<Rightarrow> Inl a
           | Inr other' \<Rightarrow>
               (case (result q', result other') of
                  (Some r, Some s) \<Rightarrow> Inr (q' \<lparr> result := Some (map_op r s) \<rparr>)
                | _ \<Rightarrow> Inl InvalidRead)))"

definition hy_query_union :: "pool \<Rightarrow> query \<Rightarrow> query \<Rightarrow> abort + query" where
  "hy_query_union = combine_queries (\<union>)"

definition hy_query_intersection :: "pool \<Rightarrow> query \<Rightarrow> query \<Rightarrow> abort + query" where
  "hy_query_intersection = combine_queries (\<inter>)"

definition hy_query_difference :: "pool \<Rightarrow> query \<Rightarrow> query \<Rightarrow> abort + query" where
  "hy_query_difference = combine_queries (-)"

text \<open>The result bitmap of a query that a fallible operation returned.\<close>

definition result_of :: "abort + query \<Rightarrow> Id set option" where
  "result_of r = (case r of Inl a \<Rightarrow> None | Inr q \<Rightarrow> result q)"

text \<open>Chaining: the next operation takes the query the previous one left.\<close>

definition then_query :: "abort + query \<Rightarrow> (query \<Rightarrow> abort + query) \<Rightarrow> abort + query" where
  "then_query r k = (case r of Inl a \<Rightarrow> Inl a | Inr q \<Rightarrow> k q)"

subsection \<open>Example pool and queries\<close>

text \<open>
  Three packages: 2 is foo-1-1, 3 is bar-1-1, 4 is foo-2-1.  Names and EVRs are interned
  ids (foo = 10, bar = 11; 1-1 = 30, 2-1 = 31); the example's EVR order is the order of
  these ids.
\<close>

definition example_pool :: pool where
  "example_pool =
     \<lparr> nsolvables = 5,
       is_pkg = (\<lambda>i. True),
       considered = None,
       solvable_name = (\<lambda>i. if i = 3 then 11 else 10),
       solvable_arch = (\<lambda>i. 20),
       solvable_evr = (\<lambda>i. if i = 4 then 31 else 30),
       pool_evrcmp = (\<lambda>a b. if a < b then - 1 else if a = b then 0 else 1),
       has_installed = True,
       is_installed = (\<lambda>i. False),
       what_downgrades = (\<lambda>i. 0),
       what_upgrades = (\<lambda>i. 0),
       whatprovides = (\<lambda>d. []),
       solvable_requires = (\<lambda>i. []),
       pool_id2str = (\<lambda>i. if i = 10 then ''foo'' else if i = 11 then ''bar'' else ''''),
       produce = (\<lambda>p r f. Inr {}) \<rparr>"

subsection \<open>The evaluation as the specification words it\<close>

text \<open>
  The specification's account of \<open>apply()\<close>: the result starts as all package
  solvables intersected with the considered set (unless \<open>IGNORE_EXCLUDES\<close>), and each
  filter in insertion order removes its bitmap under \<open>NOT\<close> and intersects with it
  otherwise.
\<close>

definition spec_initial_result :: "pool \<Rightarrow> query \<Rightarrow> Id set" where
  "spec_initial_result pool q =
     (if q_flags q AND HY_IGNORE_EXCLUDES \<noteq> 0 then set (pkg_solvables pool)
      else case considered pool of
             None \<Rightarrow> set (pkg_solvables pool)
           | Some c \<Rightarrow> set (pkg_solvables pool) \<inter> c)"

fun spec_fold_filters :: "pool \<Rightarrow> Id set \<Rightarrow> hy_filter list \<Rightarrow> abort + Id set" where
  "spec_fold_filters pool res [] = Inr res"
| "spec_fold_filters pool res (f # fs) =
     (case compute_m pool res f of
        Inl a \<Rightarrow> Inl a
      | Inr m \<Rightarrow>
          spec_fold_filters pool (if cmp_type f AND HY_NOT \<noteq> 0 then res - m else res \<inter> m) fs)"

definition spec_apply :: "pool \<Rightarrow> query \<Rightarrow> abort + Id set" where
  "spec_apply pool q = spec_fold_filters pool (spec_initial_result pool q) (filters q)"

text \<open>
  Queries on the example pool: the query after \<open>filter_empty\<close> and \<open>apply\<close>; the same
  with a \<open>NOT\<close> package filter staged on top of it; and the query after a bare \<open>apply\<close>.
\<close>

definition emptied_query :: query where
  "emptied_query = (hy_query_create \<lparr> applied := True, result := Some {} \<rparr>)"

definition restaged_query :: query where
  "restaged_query = snd (hy_query_filter_package_in emptied_query HY_PKG HY_NEQ {2})"

definition all_query :: query where
  "all_query = (hy_query_create \<lparr> applied := True, result := Some {2, 3, 4} \<rparr>)"

definition foo_query :: query where
  "foo_query = (hy_query_create \<lparr> applied := True, result := Some {2, 4} \<rparr>)"

definition new_query :: query where
  "new_query = (hy_query_create \<lparr> applied := True, result := Some {3, 4} \<rparr>)"

section \<open>The goal (hy-goal.c)\<close>

subsection \<open>Sack, solver and transaction as the goal reads them\<close>

text \<open>
  \<open>HifSack\<close>: the install-only names (interned ids), the install-only limit (a
  \<open>guint\<close>) and the id of the running kernel (negative when none is known).
\<close>

record sack =
  installonly :: "Id list"
  installonly_limit :: nat
  running_kernel :: Id

text \<open>The kinds of transaction step that \<open>transaction_type\<close> reports (transaction.h).\<close>

datatype step_type =
    SOLVER_TRANSACTION_IGNORE | SOLVER_TRANSACTION_ERASE | SOLVER_TRANSACTION_REINSTALLED
  | SOLVER_TRANSACTION_DOWNGRADED | SOLVER_TRANSACTION_CHANGED | SOLVER_TRANSACTION_UPGRADED
  | SOLVER_TRANSACTION_OBSOLETED | SOLVER_TRANSACTION_INSTALL | SOLVER_TRANSACTION_REINSTALL
  | SOLVER_TRANSACTION_DOWNGRADE | SOLVER_TRANSACTION_CHANGE | SOLVER_TRANSACTION_UPGRADE
  | SOLVER_TRANSACTION_OBSOLETES

text \<open>
  A libsolv transaction: its steps, the type of a step under the mode
  \<open>SHOW_OBSOLETES | CHANGE_IS_REINSTALL\<close> (\<open>type_common\<close>) and under that mode with
  \<open>SHOW_ACTIVE | SHOW_ALL\<close> added (\<open>type_active\<close>), and \<open>transaction_all_obs_pkgs\<close>.
\<close>

record transaction =
  steps :: "Id list"
  type_common :: "Id \<Rightarrow> step_type"
  type_active :: "Id \<Rightarrow> step_type"
  all_obs_pkgs :: "Id \<Rightarrow> Id list"

datatype solver_flag =
    SOLVER_FLAG_ALLOW_VENDORCHANGE | SOLVER_FLAG_KEEP_ORPHANS | SOLVER_FLAG_BEST_OBEY_POLICY
  | SOLVER_FLAG_YUM_OBSOLETES | SOLVER_FLAG_IGNORE_RECOMMENDED

text \<open>
  The solver after \<open>solver_solve\<close>: the number of problems (the return value), the
  decision level of each solvable, the transaction \<open>solver_create_transaction\<close> builds
  and the text of each problem.
\<close>

record solver =
  problem_count :: nat
  decisionlevel :: "Id \<Rightarrow> int"
  created_transaction :: transaction
  problem_str :: "nat \<Rightarrow> string"

text \<open>
  libsolv's solver is outside the repository: it is a parameter, a function from the
  flags set on it and the job queue to the solver state it leaves.
\<close>

type_synonym solve_fn = "solver_flag list \<Rightarrow> job \<Rightarrow> solver"

definition HIF_ALLOW_UNINSTALL :: int where "HIF_ALLOW_UNINSTALL = 1024"
definition HIF_FORCE_BEST :: int where "HIF_FORCE_BEST = 2048"
definition HIF_VERIFY :: int where "HIF_VERIFY = 4096"
definition HIF_IGNORE_WEAK_DEPS :: int where "HIF_IGNORE_WEAK_DEPS = 8192"
definition HIF_ERASE :: int where "HIF_ERASE = 1"
definition HIF_INSTALL :: int where "HIF_INSTALL = 16"
definition HY_CLEAN_DEPS :: int where "HY_CLEAN_DEPS = 2"

text \<open>
  \<open>struct _HyGoal\<close>.  \<open>protected\<close> is a null pointer until the first run or a caller
  sets it.  \<open>removal_of_protected\<close> is \<open>None\<close> once \<open>protected_in_removals\<close> has freed
  the array without replacing it.
\<close>

record goal =
  staging :: job
  protected :: "Id set option"
  solv :: "solver option"
  goal_trans :: "transaction option"
  removal_of_protected :: "Id list option"
  actions :: int

subsection \<open>Listing the transaction\<close>

definition list_results ::
  "goal \<Rightarrow> step_type \<Rightarrow> step_type option \<Rightarrow> abort + (hif_error + Id list)" where
  "list_results g type_filter1 type_filter2 =
     (case goal_trans g of
        None \<Rightarrow>
          (if solv g = None then Inr (Inl HIF_ERROR_INTERNAL_ERROR)
           else case removal_of_protected g of
                  None \<Rightarrow> Inl InvalidRead
                | Some rop \<Rightarrow>
                    if length rop \<noteq> 0 then Inr (Inl HIF_ERROR_REMOVAL_OF_PROTECTED_PKG)
                    else Inr (Inl HIF_ERROR_NO_SOLUTION))
      | Some t \<Rightarrow>
          Inr (Inr (filter
            (\<lambda>p. let ty = (if type_filter1 = SOLVER_TRANSACTION_OBSOLETED
                            then type_common t p else type_active t p)
                 in ty = type_filter1 \<or> type_filter2 = Some ty)
            (steps t))))"

definition hy_goal_list_erasures :: "goal \<Rightarrow> abort + (hif_error + Id list)" where
  "hy_goal_list_erasures g = list_results g SOLVER_TRANSACTION_ERASE None"

definition hy_goal_list_obsoleted :: "goal \<Rightarrow> abort + (hif_error + Id list)" where
  "hy_goal_list_obsoleted g = list_results g SOLVER_TRANSACTION_OBSOLETED None"

text \<open>
  Modelled from the spec: \<open>hif_goal_get_packages\<close> for the kinds \<open>REMOVE\<close> and
  \<open>OBSOLETE\<close> (hif-goal.c is not among the sources): the transaction's removals
  followed by its obsoleted packages, as the two listings above give them.  Without
  a transaction the listings return a null array, which the caller dereferences.
\<close>

definition removed_and_obsoleted :: "goal \<Rightarrow> abort + Id list" where
  "removed_and_obsoleted g =
     (case hy_goal_list_erasures g of
        Inl a \<Rightarrow> Inl a
      | Inr (Inl e) \<Rightarrow> Inl InvalidRead
      | Inr (Inr er) \<Rightarrow>
          (case hy_goal_list_obsoleted g of
             Inl a \<Rightarrow> Inl a
           | Inr (Inl e) \<Rightarrow> Inl InvalidRead
           | Inr (Inr ob) \<Rightarrow> Inr (er @ ob)))"

text \<open>
  The \<open>while\<close> loop of \<open>protected_in_removals\<close>: a protected package stays in the
  array and sets the return value, any other is removed from it.
\<close>

fun keep_protected :: "Id set \<Rightarrow> Id list \<Rightarrow> bool \<times> Id list" where
  "keep_protected prot [] = (False, [])"
| "keep_protected prot (p # ps) =
     (let (ret, kept) = keep_protected prot ps
      in if p \<in> prot then (True, p # kept) else (ret, kept))"

definition protected_in_removals :: "goal \<Rightarrow> abort + bool \<times> goal" where
  "protected_in_removals g =
     (case protected g of
        None \<Rightarrow> Inr (False, g \<lparr> removal_of_protected := None \<rparr>)
      | Some prot \<Rightarrow>
          (case removed_and_obsoleted g of
             Inl a \<Rightarrow> Inl a
           | Inr rem \<Rightarrow>
               let (ret, kept) = keep_protected prot rem
               in Inr (ret, g \<lparr> removal_of_protected := Some kept \<rparr>)))"

subsection \<open>The install-only limit\<close>

text \<open>\<open>queue_pop\<close>: the last element, 0 for an empty queue.\<close>

definition queue_pop :: "Id list \<Rightarrow> Id \<times> Id list" where
  "queue_pop q = (if q = [] then (0, []) else (last q, butlast q))"

text \<open>The \<open>while\<close> loop of \<open>same_name_subqueue\<close>.\<close>

function pop_same :: "pool \<Rightarrow> Id \<Rightarrow> Id list \<Rightarrow> Id list \<Rightarrow> Id list \<times> Id list" where
  "pop_same pool name inq out =
     (if inq \<noteq> [] \<and> solvable_name pool (last inq) = name
      then pop_same pool name (butlast inq) (out @ [last inq])
      else (inq, out))"
  by pat_completeness auto
termination
  by (relation "measure (\<lambda>(pool, name, inq, out). length inq)") auto

declare pop_same.simps [simp del]

definition same_name_subqueue :: "pool \<Rightarrow> Id list \<Rightarrow> Id list \<times> Id list" where
  "same_name_subqueue pool inq =
     (let (el, inq') = queue_pop inq
      in pop_same pool (solvable_name pool el) inq' [el])"

text \<open>
  \<open>can_depend_on\<close>: some requirement of \<open>a\<close> has \<open>b\<close> among its providers.  The ids
  that \<open>FOR_PROVIDES\<close> visits are non-zero.
\<close>

definition can_depend_on :: "pool \<Rightarrow> Id \<Rightarrow> Id \<Rightarrow> bool" where
  "can_depend_on pool a b =
     list_ex (\<lambda>req_dep. list_ex (\<lambda>p. p = b) (whatprovides pool req_dep))
       (solvable_requires pool a)"

text \<open>"Is the running kernel or can depend on it", the test \<open>sort_packages\<close> makes.\<close>

definition kernel_related :: "pool \<Rightarrow> Id \<Rightarrow> Id \<Rightarrow> bool" where
  "kernel_related pool rk a = (a = rk \<or> can_depend_on pool a rk)"

definition sort_packages :: "pool \<Rightarrow> Id \<Rightarrow> Id \<Rightarrow> Id \<Rightarrow> int" where
  "sort_packages pool rk a b =
     (let name_diff = solvable_name pool a - solvable_name pool b
      in if name_diff \<noteq> 0 then name_diff
         else if rk \<ge> 0 \<and> (a = rk \<or> can_depend_on pool a rk) then 1
         else if rk \<ge> 0 \<and> (b = rk \<or> can_depend_on pool b rk) then - 1
         else pool_evrcmp pool (solvable_evr pool a) (solvable_evr pool b))"

text \<open>The cast \<open>(int) hif_sack_get_installonly_limit(sack)\<close> of a \<open>guint\<close>.\<close>

definition guint_to_int :: "nat \<Rightarrow> int" where
  "guint_to_int n = (if int n mod 4294967296 < 2147483648 then int n mod 4294967296
                     else int n mod 4294967296 - 4294967296)"

text \<open>
  The loop over \<open>j\<close> in \<open>limit_installonly_packages\<close>, from index \<open>j\<close> on the rest of
  the subqueue.
\<close>

fun push_limit_jobs :: "int \<Rightarrow> nat \<Rightarrow> Id list \<Rightarrow> job \<Rightarrow> job" where
  "push_limit_jobs lim j [] jb = jb"
| "push_limit_jobs lim j (ident # ids) jb =
     push_limit_jobs lim (Suc j) ids
       (jb @ [((if int j < lim then SOLVER_INSTALL else SOLVER_ERASE) OR SOLVER_SOLVABLE, ident)])"

text \<open>
  The loop \<open>while (q.count > 0)\<close> of \<open>limit_installonly_packages\<close>, with the pair of
  \<open>reresolve\<close> and the job queue.
\<close>

function subqueue_loop :: "pool \<Rightarrow> int \<Rightarrow> Id list \<Rightarrow> bool \<times> job \<Rightarrow> bool \<times> job" where
  "subqueue_loop pool lim q acc =
     (if q = [] then acc
      else let (q', same_names) = same_name_subqueue pool q
           in if int (length same_names) \<le> lim then subqueue_loop pool lim q' acc
              else subqueue_loop pool lim q' (True, push_limit_jobs lim 0 same_names (snd acc)))"
  by pat_completeness auto
termination
proof -
  have pop: "length (fst (pop_same pool name inq out)) \<le> length inq"
    for pool name inq out
  proof (induction pool name inq out rule: pop_same.induct)
    case (1 pool name inq out)
    show ?case
    proof (cases "inq \<noteq> [] \<and> solvable_name pool (last inq) = name")
      case True
      with "1.IH" have "length (fst (pop_same pool name (butlast inq) (out @ [last inq])))
          \<le> length (butlast inq)"
        by simp
      with True show ?thesis
        by (subst pop_same.simps) simp
    next
      case False
      then show ?thesis
        by (subst pop_same.simps) auto
    qed
  qed
  have shorter: "length (fst (same_name_subqueue pool q)) < length q" if q: "q \<noteq> []"
    for pool and q :: "Id list"
  proof -
    have "length (fst (pop_same pool (solvable_name pool (last q)) (butlast q) [last q]))
            \<le> length (butlast q)"
      by (rule pop)
    moreover from q have "Suc (length (butlast q)) = length q"
      by (cases q rule: rev_cases) simp_all
    ultimately have "length (fst (pop_same pool (solvable_name pool (last q)) (butlast q) [last q]))
            < length q"
      by linarith
    with q show ?thesis
      by (simp add: same_name_subqueue_def queue_pop_def)
  qed
  show ?thesis
  proof (relation "measure (\<lambda>(pool, lim, q, acc). length q)")
    show "wf (measure (\<lambda>(pool, lim, q, acc). length q))"
      by simp
  next
    fix pool :: pool and lim :: int and q :: "Id list" and acc :: "bool \<times> job"
      and x :: "Id list \<times> Id list" and xa ya
    assume "q \<noteq> []" and "x = same_name_subqueue pool q" and "(xa, ya) = x"
    then have "xa = fst (same_name_subqueue pool q)"
      by (metis fst_conv)
    with \<open>q \<noteq> []\<close> show "((pool, lim, xa, acc), pool, lim, q, acc)
        \<in> measure (\<lambda>(pool, lim, q, acc). length q)"
      by (simp add: shorter)
  next
    fix pool :: pool and lim :: int and q :: "Id list" and acc :: "bool \<times> job"
      and x :: "Id list \<times> Id list" and xa ya
    assume "q \<noteq> []" and "x = same_name_subqueue pool q" and "(xa, ya) = x"
    then have "xa = fst (same_name_subqueue pool q)"
      by (metis fst_conv)
    with \<open>q \<noteq> []\<close>
    show "((pool, lim, xa, True, push_limit_jobs lim 0 ya (snd acc)), pool, lim, q, acc)
        \<in> measure (\<lambda>(pool, lim, q, acc). length q)"
      by (simp add: shorter)
  qed
qed

declare subqueue_loop.simps [simp del]

text \<open>
  The providers of an install-only name that the solver decided for: the packages that
  \<open>FOR_PKG_PROVIDES\<close> visits whose decision level is positive.
\<close>

definition decided_providers :: "pool \<Rightarrow> solver \<Rightarrow> Id \<Rightarrow> Id list" where
  "decided_providers pool sv n =
     filter (\<lambda>p. decisionlevel sv p > 0) (filter (is_pkg pool) (whatprovides pool n))"

text \<open>
  The loop over the install-only names: a name with no more decided providers than the
  limit is skipped; for any other the providers are sorted and cut into same-name
  subqueues.
\<close>

fun onlies_loop :: "pool \<Rightarrow> sack \<Rightarrow> solver \<Rightarrow> Id list \<Rightarrow> bool \<times> job \<Rightarrow> bool \<times> job" where
  "onlies_loop pool sk sv [] acc = acc"
| "onlies_loop pool sk sv (n # ns) acc =
     (let q = decided_providers pool sv n
      in if int (length q) \<le> guint_to_int (installonly_limit sk)
         then onlies_loop pool sk sv ns acc
         else onlies_loop pool sk sv ns
                (subqueue_loop pool (guint_to_int (installonly_limit sk))
                   (solv_sort (sort_packages pool (running_kernel sk)) q) acc))"

definition limit_installonly_packages :: "pool \<Rightarrow> sack \<Rightarrow> solver \<Rightarrow> job \<Rightarrow> bool \<times> job" where
  "limit_installonly_packages pool sk sv jb =
     (if installonly_limit sk = 0 then (False, jb)
      else onlies_loop pool sk sv (installonly sk) (False, jb))"

subsection \<open>Solving\<close>

definition init_solver_flags :: "solver_flag list" where
  "init_solver_flags =
     [SOLVER_FLAG_ALLOW_VENDORCHANGE, SOLVER_FLAG_KEEP_ORPHANS, SOLVER_FLAG_BEST_OBEY_POLICY,
      SOLVER_FLAG_YUM_OBSOLETES]"

definition allow_uninstall_all_but_protected ::
  "pool \<Rightarrow> sack \<Rightarrow> goal \<Rightarrow> job \<Rightarrow> int \<Rightarrow> goal \<times> job" where
  "allow_uninstall_all_but_protected pool sk g jb flags =
     (let prot0 = (case protected g of None \<Rightarrow> {} | Some p \<Rightarrow> p);
          rk = running_kernel sk;
          prot = (if rk > 0 then insert rk prot0 else prot0);
          g' = g \<lparr> protected := Some prot \<rparr>
      in if HIF_ALLOW_UNINSTALL AND flags \<noteq> 0
         then (g', jb @ map (\<lambda>i. (SOLVER_ALLOWUNINSTALL OR SOLVER_SOLVABLE, i))
                      (filter (\<lambda>i. is_installed pool i \<and> i \<notin> prot) [1 ..(nsolvables pool - 1)]))
         else (g', jb))"

text \<open>
  \<open>solve\<close> returns its return value, the goal it leaves and, for the record, the job
  queues it handed to \<open>solver_solve\<close>, in order.  \<open>user_cb\<close> tells whether a solution
  callback was given; the callback runs inside the solver.
\<close>

definition finish_solve :: "goal \<Rightarrow> solver \<Rightarrow> job list \<Rightarrow> abort + int \<times> goal \<times> job list" where
  "finish_solve g sv calls =
     (case protected_in_removals (g \<lparr> goal_trans := Some (created_transaction sv) \<rparr>) of
        Inl a \<Rightarrow> Inl a
      | Inr (b, g') \<Rightarrow> Inr (if b then 1 else 0, g', calls))"

text \<open>The flags set on the solver by \<open>init_solver\<close> and \<open>solve\<close>.\<close>

definition solver_flags_of :: "int \<Rightarrow> solver_flag list" where
  "solver_flags_of flags =
     init_solver_flags
     @ (if HIF_IGNORE_WEAK_DEPS AND flags \<noteq> 0 then [SOLVER_FLAG_IGNORE_RECOMMENDED] else [])"

definition solve ::
  "solve_fn \<Rightarrow> pool \<Rightarrow> sack \<Rightarrow> goal \<Rightarrow> job \<Rightarrow> int \<Rightarrow> bool \<Rightarrow> abort + int \<times> goal \<times> job list" where
  "solve slv pool sk g jb flags user_cb =
     (let sflags = solver_flags_of flags;
          sv1 = slv sflags jb;
          g1 = g \<lparr> goal_trans := None, solv := Some sv1 \<rparr>
      in if problem_count sv1 \<noteq> 0 then Inr (1, g1, [jb])
         else if user_cb then finish_solve g1 sv1 [jb]
         else let (reresolve, jb1) = limit_installonly_packages pool sk sv1 jb
              in if reresolve then
                   (let (g2, jb2) = allow_uninstall_all_but_protected pool sk g1 jb1 HIF_ALLOW_UNINSTALL;
                        sv2 = slv sflags jb2;
                        g3 = g2 \<lparr> solv := Some sv2 \<rparr>
                    in if problem_count sv2 \<noteq> 0 then Inr (1, g3, [jb, jb2])
                       else finish_solve g3 sv2 [jb, jb2])
                 else finish_solve g1 sv1 [jb])"

definition construct_job :: "pool \<Rightarrow> sack \<Rightarrow> goal \<Rightarrow> int \<Rightarrow> goal \<times> job" where
  "construct_job pool sk g flags =
     (let jb0 = (if flags AND HIF_FORCE_BEST \<noteq> 0
                 then map (\<lambda>(h, w). (h OR SOLVER_FORCEBEST, w)) (staging g) else staging g);
          jb1 = jb0 @ map (\<lambda>n. (SOLVER_MULTIVERSION OR SOLVER_SOLVABLE_PROVIDES, n)) (installonly sk);
          (g', jb2) = allow_uninstall_all_but_protected pool sk g jb1 flags
      in (g', if flags AND HIF_VERIFY \<noteq> 0
              then jb2 @ [(SOLVER_VERIFY OR SOLVER_SOLVABLE_ALL, 0)] else jb2))"

definition hy_goal_run_all_flags ::
  "solve_fn \<Rightarrow> pool \<Rightarrow> sack \<Rightarrow> goal \<Rightarrow> bool \<Rightarrow> int \<Rightarrow> abort + int \<times> goal \<times> job list" where
  "hy_goal_run_all_flags slv pool sk g user_cb flags =
     (let (g1, jb) = construct_job pool sk g flags
      in solve slv pool sk (g1 \<lparr> actions := actions g1 OR flags \<rparr>) jb flags user_cb)"

definition hy_goal_run_flags ::
  "solve_fn \<Rightarrow> pool \<Rightarrow> sack \<Rightarrow> goal \<Rightarrow> int \<Rightarrow> abort + int \<times> goal \<times> job list" where
  "hy_goal_run_flags slv pool sk g flags = hy_goal_run_all_flags slv pool sk g False flags"

definition hy_goal_run :: "solve_fn \<Rightarrow> pool \<Rightarrow> sack \<Rightarrow> goal \<Rightarrow> abort + int \<times> goal \<times> job list" where
  "hy_goal_run slv pool sk g = hy_goal_run_flags slv pool sk g 0"

subsection \<open>Problems\<close>

definition hy_goal_count_problems :: "goal \<Rightarrow> abort + nat" where
  "hy_goal_count_problems g =
     (case solv g of
        None \<Rightarrow> Inl AssertFailed
      | Some sv \<Rightarrow>
          (case removal_of_protected g of
             None \<Rightarrow> Inl InvalidRead
           | Some rop \<Rightarrow> Inr (problem_count sv + min 1 (length rop))))"

text \<open>\<open>hif_package_get_name\<close> of the package with id \<open>p\<close>.\<close>

definition package_name :: "pool \<Rightarrow> Id \<Rightarrow> string" where
  "package_name pool p = pool_id2str pool (solvable_name pool p)"

text \<open>
  The loop over \<open>j\<close> in \<open>hy_goal_describe_problem\<close>.  The package is read at index
  \<open>i\<close>, the number of the problem, on every round; \<open>g_ptr_array_index\<close> does not check
  the index.
\<close>

fun describe_protected :: "pool \<Rightarrow> Id list \<Rightarrow> nat \<Rightarrow> nat \<Rightarrow> nat \<Rightarrow> string \<Rightarrow> abort + string" where
  "describe_protected pool rop i j 0 str = Inr str"
| "describe_protected pool rop i j (Suc n) str =
     (if i \<ge> length rop then Inl InvalidRead
      else describe_protected pool rop i (Suc j) n
             (if j = 0 then str @ package_name pool (rop ! i)
              else str @ '', '' @ package_name pool (rop ! i)))"

definition hy_goal_describe_problem :: "pool \<Rightarrow> goal \<Rightarrow> nat \<Rightarrow> abort + string option" where
  "hy_goal_describe_problem pool g i =
     (case hy_goal_count_problems g of
        Inl a \<Rightarrow> Inl a
      | Inr n \<Rightarrow>
          if i \<ge> n then Inr None
          else case solv g of
            None \<Rightarrow> Inl AssertFailed
          | Some sv \<Rightarrow>
              if i \<ge> problem_count sv then
                (case removal_of_protected g of
                   None \<Rightarrow> Inl InvalidRead
                 | Some rop \<Rightarrow>
                     (case describe_protected pool rop i 0 (length rop)
                             (''The operation would result in removing''
                              @ '' the following protected packages: '') of
                        Inl a \<Rightarrow> Inl a
                      | Inr s \<Rightarrow> Inr (Some s)))
              else Inr (Some (problem_str sv i)))"

subsection \<open>Staging\<close>

definition hy_goal_create :: goal where
  "hy_goal_create =
     \<lparr> staging = [], protected = None, solv = None, goal_trans = None,
       removal_of_protected = Some [], actions = 0 \<rparr>"

definition erase_flags2libsolv :: "int \<Rightarrow> int" where
  "erase_flags2libsolv flags = (if flags AND HY_CLEAN_DEPS \<noteq> 0 then SOLVER_CLEANDEPS else 0)"

definition hy_goal_erase_flags :: "pool \<Rightarrow> goal \<Rightarrow> Id \<Rightarrow> int \<Rightarrow> abort + int \<times> goal" where
  "hy_goal_erase_flags pool g pkg flags =
     (if \<not> (has_installed pool \<and> is_installed pool pkg) then Inl AssertFailed
      else Inr (0, g \<lparr> actions := actions g OR HIF_ERASE,
                       staging := staging g
                         @ [(SOLVER_SOLVABLE OR SOLVER_ERASE OR erase_flags2libsolv flags, pkg)] \<rparr>))"

definition hy_goal_erase :: "pool \<Rightarrow> goal \<Rightarrow> Id \<Rightarrow> abort + int \<times> goal" where
  "hy_goal_erase pool g pkg = hy_goal_erase_flags pool (g \<lparr> actions := actions g OR HIF_ERASE \<rparr>) pkg 0"

definition hy_goal_install :: "goal \<Rightarrow> Id \<Rightarrow> int \<times> goal" where
  "hy_goal_install g new_pkg =
     (0, g \<lparr> actions := actions g OR HIF_INSTALL,
             staging := staging g @ [(SOLVER_SOLVABLE OR SOLVER_INSTALL, new_pkg)] \<rparr>)"

subsection \<open>Example system for the goal\<close>

text \<open>
  Installed: walrus (id 2), penny (3), kernel-1 (4, the running kernel) and kernel-2
  (5); available: kernel-3 (6).  The name ids are 10 (walrus), 11 (penny) and 12
  (kernel); the EVR ids 30, 31 and 32 are ordered as the versions 1, 2 and 3.
\<close>

definition goal_pool :: pool where
  "goal_pool =
     \<lparr> nsolvables = 7,
       is_pkg = (\<lambda>i. True),
       considered = None,
       solvable_name = (\<lambda>i. if i = 2 then 10 else if i = 3 then 11 else 12),
       solvable_arch = (\<lambda>i. 20),
       solvable_evr = (\<lambda>i. if i = 5 then 31 else if i = 6 then 32 else 30),
       pool_evrcmp = (\<lambda>a b. if a < b then - 1 else if a = b then 0 else 1),
       has_installed = True,
       is_installed = (\<lambda>i. 2 \<le> i \<and> i \<le> 5),
       what_downgrades = (\<lambda>i. 0),
       what_upgrades = (\<lambda>i. 0),
       whatprovides = (\<lambda>d. if d = 12 then [4, 5, 6] else []),
       solvable_requires = (\<lambda>i. []),
       pool_id2str = (\<lambda>i. if i = 10 then ''walrus'' else if i = 11 then ''penny''
                           else if i = 12 then ''kernel'' else ''''),
       produce = (\<lambda>p r f. Inr {}) \<rparr>"

definition SOLVER_JOBMASK :: int where "SOLVER_JOBMASK = 65280"

text \<open>
  A solver for the examples: it finds no problem, erases the operands of the erase
  jobs, installs the operands of the install jobs that are not installed, and decides
  for every package it keeps or installs.
\<close>

definition example_solver :: solve_fn where
  "example_solver sflags jb =
     (let er = map snd (filter (\<lambda>(h, w). h AND SOLVER_JOBMASK = SOLVER_ERASE) jb);
          ins = map snd (filter (\<lambda>(h, w). h AND SOLVER_JOBMASK = SOLVER_INSTALL
                                     \<and> \<not> is_installed goal_pool w) jb);
          ty = (\<lambda>p. if p \<in> set er then SOLVER_TRANSACTION_ERASE else SOLVER_TRANSACTION_INSTALL)
      in \<lparr> problem_count = 0,
           decisionlevel = (\<lambda>p. if p \<in> set er then - 1
                                else if is_installed goal_pool p \<or> p \<in> set ins then 1 else 0),
           created_transaction =
             \<lparr> steps = remdups (er @ ins), type_common = ty, type_active = ty,
               all_obs_pkgs = (\<lambda>p. []) \<rparr>,
           problem_str = (\<lambda>i. '''') \<rparr>)"

definition plain_sack :: sack where
  "plain_sack = \<lparr> installonly = [], installonly_limit = 0, running_kernel = - 1 \<rparr>"

definition kernel_sack :: sack where
  "kernel_sack = \<lparr> installonly = [12], installonly_limit = 2, running_kernel = 4 \<rparr>"

text \<open>A goal that protects walrus and penny and is asked to erase both.\<close>

definition erase_protected_goal :: goal where
  "erase_protected_goal =
     hy_goal_create \<lparr> protected := Some {2, 3},
       staging := [(SOLVER_SOLVABLE OR SOLVER_ERASE, 2), (SOLVER_SOLVABLE OR SOLVER_ERASE, 3)],
       actions := HIF_ERASE \<rparr>"

text \<open>A goal that is asked to install kernel-3.\<close>

definition install_kernel_goal :: goal where
  "install_kernel_goal = snd (hy_goal_install hy_goal_create 6)"

subsection \<open>When the sort callback is an order\<close>

text \<open>
  \<open>sort_packages\<close> answers 1 whenever its first argument is the running kernel or can
  depend on it, also when the second is so as well; and it passes on what libsolv's
  \<open>pool_evrcmp\<close> answers.  It orders the packages \<open>ps\<close> consistently when \<open>pool_evrcmp\<close>
  is a total preorder on their EVRs (\<open>evr_ordered\<close>) and, with a running kernel, no two
  entries of one name are the kernel or can depend on it (\<open>kernel_unique\<close>).
\<close>

definition evr_ordered :: "pool \<Rightarrow> Id list \<Rightarrow> bool" where
  "evr_ordered pool ps =
     (\<forall>a\<in>set ps. \<forall>b\<in>set ps.
        (0 < pool_evrcmp pool (solvable_evr pool a) (solvable_evr pool b) \<longrightarrow>
           pool_evrcmp pool (solvable_evr pool b) (solvable_evr pool a) \<le> 0)
        \<and> (\<forall>c\<in>set ps.
             pool_evrcmp pool (solvable_evr pool a) (solvable_evr pool b) \<le> 0
             \<and> pool_evrcmp pool (solvable_evr pool b) (solvable_evr pool c) \<le> 0 \<longrightarrow>
             pool_evrcmp pool (solvable_evr pool a) (solvable_evr pool c) \<le> 0))"

definition kernel_unique :: "pool \<Rightarrow> Id \<Rightarrow> Id list \<Rightarrow> bool" where
  "kernel_unique pool rk ps =
     (rk < 0 \<or> distinct (map (solvable_name pool) (filter (kernel_related pool rk) ps)))"

subsection \<open>The install-only limit as the specification words it\<close>

text \<open>
  The specification's account: the providers are sorted by name, then with the kernel
  or a package that can depend on it at the end, then by descending EVR; the sorted
  list is cut into runs of one name; a run longer than the limit gets \<open>INSTALL\<close> for
  its first \<open>limit\<close> entries and \<open>ERASE\<close> for the rest.
\<close>

definition spec_sort_cmp :: "pool \<Rightarrow> Id \<Rightarrow> Id \<Rightarrow> Id \<Rightarrow> int" where
  "spec_sort_cmp pool rk a b =
     (let name_diff = solvable_name pool a - solvable_name pool b
      in if name_diff \<noteq> 0 then name_diff
         else if rk \<ge> 0 \<and> kernel_related pool rk a \<and> \<not> kernel_related pool rk b then 1
         else if rk \<ge> 0 \<and> kernel_related pool rk b \<and> \<not> kernel_related pool rk a then - 1
         else pool_evrcmp pool (solvable_evr pool b) (solvable_evr pool a))"

fun spec_name_runs :: "pool \<Rightarrow> Id list \<Rightarrow> Id list list" where
  "spec_name_runs pool [] = []"
| "spec_name_runs pool (x # xs) =
     (case spec_name_runs pool xs of
        [] \<Rightarrow> [[x]]
      | r # rs \<Rightarrow>
          if solvable_name pool x = solvable_name pool (hd r) then (x # r) # rs
          else [x] # r # rs)"

definition spec_limit_jobs :: "pool \<Rightarrow> sack \<Rightarrow> Id list \<Rightarrow> job" where
  "spec_limit_jobs pool sk providers =
     concat (map
       (\<lambda>run. if length run > installonly_limit sk
              then map (Pair (SOLVER_INSTALL OR SOLVER_SOLVABLE)) (take (installonly_limit sk) run)
                   @ map (Pair (SOLVER_ERASE OR SOLVER_SOLVABLE)) (drop (installonly_limit sk) run)
              else [])
       (spec_name_runs pool (solv_sort (spec_sort_cmp pool (running_kernel sk)) providers)))"

text \<open>The run of \<open>solve\<close> for that goal on the example system, with the job staged.\<close>

definition ex_run :: "abort + int \<times> goal \<times> job list" where
  "ex_run = solve example_solver goal_pool kernel_sack install_kernel_goal
      [(SOLVER_SOLVABLE OR SOLVER_INSTALL, 6)] 0 False"

section \<open>The transaction driver (hif-transaction.c)\<close>

subsection \<open>State and environment\<close>

definition HIF_TRANSACTION_FLAG_ONLY_TRUSTED :: "64 word" where
  "HIF_TRANSACTION_FLAG_ONLY_TRUSTED = 1"
definition HIF_TRANSACTION_FLAG_ALLOW_REINSTALL :: "64 word" where
  "HIF_TRANSACTION_FLAG_ALLOW_REINSTALL = 2"
definition HIF_TRANSACTION_FLAG_ALLOW_DOWNGRADE :: "64 word" where
  "HIF_TRANSACTION_FLAG_ALLOW_DOWNGRADE = 4"
definition HIF_TRANSACTION_FLAG_NODOCS :: "64 word" where
  "HIF_TRANSACTION_FLAG_NODOCS = 8"
definition HIF_TRANSACTION_FLAG_TEST :: "64 word" where
  "HIF_TRANSACTION_FLAG_TEST = 16"

datatype transaction_step =
    HIF_TRANSACTION_STEP_STARTED | HIF_TRANSACTION_STEP_PREPARING
  | HIF_TRANSACTION_STEP_WRITING | HIF_TRANSACTION_STEP_IGNORE

datatype prob_filter =
    RPMPROB_FILTER_DISKSPACE | RPMPROB_FILTER_REPLACEPKG | RPMPROB_FILTER_OLDPACKAGE

datatype rpmtrans_flag = RPMTRANS_FLAG_NODOCS | RPMTRANS_FLAG_TEST

text \<open>
  What the driver hands to the rpm runtime and the files it asks GIO to delete, in
  order.  The file name of an install is a null pointer when the package has none.
\<close>

datatype ts_op =
    TsSetRootDir
  | TsAddInstall "string option" bool bool
  | TsAddRemove Id
  | TsOrder
  | TsCheck
  | TsRun "rpmtrans_flag list" "prob_filter list"
  | TsEmpty
  | GFileDelete string

text \<open>
  An error set with \<open>g_set_error\<close>: the code, the format string and its arguments; or
  the error of a call outside the file, named by the call; or the end of the run at an
  unchecked read.
\<close>

datatype fmt_arg = ArgStr string | ArgInt int | ArgStep transaction_step

datatype tr_error =
    TrError hif_error string "fmt_arg list"
  | TrExternal string
  | TrCrash abort

datatype fs_query = QueryFailed | NoFreeAttribute | FreeBytes "64 word"

text \<open>
  \<open>HifTransactionPrivate\<close>, the fields the modelled functions use.  The repos, the
  three package arrays and the hash are null pointers until they are set; the arrays and
  the hash are null outside \<open>hif_transaction_commit\<close>.
\<close>

record hif_transaction =
  tr_flags :: "64 word"
  tr_repos :: "hif_repo list option"
  pkgs_to_download :: "hif_package list"
  tr_install :: "hif_package list option"
  tr_remove :: "hif_package list option"
  remove_helper :: "hif_package list option"
  erased_by_package_hash :: "(string \<times> hif_package) list option"
  tr_step :: transaction_step
  ts_ops :: "ts_op list"

text \<open>
  What \<open>hif_keyring_check_untrusted_file\<close> answers: success, the error
  \<open>HIF_ERROR_GPG_SIGNATURE_INVALID\<close> with its message, or another error.
\<close>

datatype keyring_result = KeyringOk | KeyringSignatureInvalid string | KeyringFailed

text \<open>
  What the driver asks of its surroundings: the context's settings, the free space that
  GIO reports for a path, \<open>g_format_size\<close>, the GLib path functions, and the outcome of
  each call into the state object, the keyring, the rpm runtime, the downloader, GIO,
  the reason store and the goal.  \<open>goal_install\<close> and \<open>goal_remove\<close> are the arrays
  \<open>hif_goal_get_packages\<close> returns for the install kinds and for the removal kinds, with
  the action of each package set; \<open>package_new\<close> is \<open>hif_package_new\<close>; \<open>step_after_run\<close>
  is \<open>priv->step\<close> as the progress callback leaves it during \<open>rpmtsRun\<close>.
  \<open>write_yumdb_ok\<close> is the outcome of \<open>hif_transaction_write_yumdb\<close>, which reads the
  goal, the packages and the reason store and writes the reason store only.
\<close>

record tr_env =
  cache_dir :: "string option"
  filesystem_free :: "string \<Rightarrow> fs_query"
  g_format_size :: "64 word \<Rightarrow> string"
  paths :: path_ops
  array_download_ok :: "hif_package list \<Rightarrow> bool"
  take_lock_ok :: bool
  set_steps_ok :: bool
  add_public_keys_ok :: bool
  keyring_check :: "string \<Rightarrow> keyring_result"
  set_root_dir_rc :: int
  add_install_ok :: "string option \<Rightarrow> bool"
  add_remove_ok :: "hif_package \<Rightarrow> bool"
  state_done_ok :: bool
  goal_install :: "hif_package list"
  goal_remove :: "hif_package list"
  package_new :: "Id \<Rightarrow> hif_package"
  check_transaction :: bool
  test_problems_ok :: bool
  check_disk_space :: bool
  run_rc :: int
  run_problems_ok :: bool
  step_after_run :: transaction_step
  write_yumdb_ok :: bool
  keep_cache :: bool
  file_delete_ok :: "string \<Rightarrow> bool"

subsection \<open>Download\<close>




subsection \<open>Commit\<close>

type_synonym tr_result = "tr_error option \<times> hif_transaction"

text \<open>Run the next part unless an earlier one failed (\<open>goto out\<close>).\<close>

definition tr_then :: "tr_result \<Rightarrow> (hif_transaction \<Rightarrow> tr_result) \<Rightarrow> tr_result" where
  "tr_then r k = (case r of (Some e, tr) \<Rightarrow> (Some e, tr) | (None, tr) \<Rightarrow> k tr)"

text \<open>A call whose outcome the environment gives.\<close>

definition tr_call :: "bool \<Rightarrow> string \<Rightarrow> hif_transaction \<Rightarrow> tr_result" where
  "tr_call ok name tr = (if ok then (None, tr) else (Some (TrExternal name), tr))"

definition hand_over :: "ts_op \<Rightarrow> hif_transaction \<Rightarrow> hif_transaction" where
  "hand_over op tr = tr \<lparr> ts_ops := ts_ops tr @ [op] \<rparr>"

definition is_update :: "hif_package \<Rightarrow> bool" where
  "is_update pkg = (pkg_action pkg = HIF_STATE_ACTION_UPDATE
                    \<or> pkg_action pkg = HIF_STATE_ACTION_DOWNGRADE)"

text \<open>
  \<open>hif_transaction_ensure_repo\<close> returns its error, if any, and the package, on which it
  has set the file name (a package of the command line) or the repo.
\<close>

definition hif_transaction_ensure_repo ::
  "hif_transaction \<Rightarrow> hif_package \<Rightarrow> tr_error option \<times> hif_package" where
  "hif_transaction_ensure_repo tr pkg =
     (case tr_repos tr of
        None \<Rightarrow>
          (Some (TrError HIF_ERROR_INTERNAL_ERROR
                   ''Sources not set when trying to ensure package %s'' [ArgStr (pkg_name pkg)]),
           pkg)
      | Some rs \<Rightarrow>
          if pkg_reponame pkg = HY_CMDLINE_REPO_NAME
          then (None, hif_package_set_filename pkg (Some (pkg_location pkg)))
          else if pkg_installed pkg then (None, pkg)
          else case find (\<lambda>repo. pkg_reponame pkg = repo_id repo) rs of
                 Some repo \<Rightarrow> (None, hif_package_set_repo pkg repo)
               | None \<Rightarrow>
                   (Some (TrError HIF_ERROR_INTERNAL_ERROR
                            (''Failed to ensure %s as repo %s not ''
                             @ ''found(%i repos loaded)'')
                            [ArgStr (pkg_name pkg), ArgStr (pkg_reponame pkg),
                             ArgInt (int (length rs))]),
                    pkg))"

text \<open>\<open>g_prefix_error\<close> on an error set in this file.\<close>

definition prefix_error :: "string \<Rightarrow> tr_error \<Rightarrow> tr_error" where
  "prefix_error pfx e =
     (case e of TrError c m a \<Rightarrow> TrError c (pfx @ m) a | _ \<Rightarrow> e)"

text \<open>
  The loop of \<open>hif_transaction_check_untrusted\<close> over its own array of the packages to
  install.  An error of the keyring that is not \<open>HIF_ERROR_GPG_SIGNATURE_INVALID\<close> is
  passed on; so is that error when only trusted packages are allowed.
\<close>

fun check_untrusted_loop ::
  "tr_env \<Rightarrow> hif_transaction \<Rightarrow> hif_package list \<Rightarrow> tr_error option" where
  "check_untrusted_loop env tr [] = None"
| "check_untrusted_loop env tr (pkg # rest) =
     (case hif_transaction_ensure_repo tr pkg of
        (Some e, pkg1) \<Rightarrow> Some (prefix_error ''Failed to check untrusted: '' e)
      | (None, pkg1) \<Rightarrow>
          (case hif_package_get_filename (paths env) pkg1 of
             (None, pkg2) \<Rightarrow>
               Some (TrError HIF_ERROR_FILE_NOT_FOUND ''Downloaded file for %s not found''
                       [ArgStr (pkg_name pkg2)])
           | (Some fn, pkg2) \<Rightarrow>
               (case keyring_check env fn of
                  KeyringOk \<Rightarrow> check_untrusted_loop env tr rest
                | KeyringFailed \<Rightarrow> Some (TrExternal ''hif_keyring_check_untrusted_file'')
                | KeyringSignatureInvalid message \<Rightarrow>
                    if (case pkg_repo pkg2 of None \<Rightarrow> False | Some repo \<Rightarrow> repo_gpgcheck repo)
                    then Some (TrError HIF_ERROR_FILE_INVALID
                                 (''package %s cannot be verified ''
                                  @ ''and repo %s is GPG enabled: %s'')
                                 [ArgStr (pkg_nevra pkg2),
                                  ArgStr (case pkg_repo pkg2 of None \<Rightarrow> []
                                          | Some repo \<Rightarrow> repo_id repo),
                                  ArgStr message])
                    else if tr_flags tr AND HIF_TRANSACTION_FLAG_ONLY_TRUSTED \<noteq> 0
                    then Some (TrError HIF_ERROR_GPG_SIGNATURE_INVALID message [])
                    else check_untrusted_loop env tr rest)))"

definition hif_transaction_check_untrusted :: "tr_env \<Rightarrow> hif_transaction \<Rightarrow> tr_error option" where
  "hif_transaction_check_untrusted env tr =
     (if goal_install env = [] then None
      else check_untrusted_loop env tr (goal_install env))"

text \<open>
  The loop that adds the packages to install, over the rest of \<open>priv->install\<close> with the
  packages already visited.  \<open>hif_transaction_ensure_repo\<close> and
  \<open>hif_package_get_filename\<close> write to the package, which is an element of the array.
\<close>

fun add_installs ::
  "tr_env \<Rightarrow> hif_package list \<Rightarrow> hif_package list \<Rightarrow> hif_transaction \<Rightarrow> tr_result" where
  "add_installs env visited [] tr = (None, tr)"
| "add_installs env visited (pkg # rest) tr =
     (case hif_transaction_ensure_repo tr pkg of
        (Some e, pkg1) \<Rightarrow> (Some e, tr \<lparr> tr_install := Some (visited @ pkg1 # rest) \<rparr>)
      | (None, pkg1) \<Rightarrow>
          (case hif_package_get_filename (paths env) pkg1 of
             (filename, pkg2) \<Rightarrow>
               tr_then (tr_call (add_install_ok env filename) ''hif_rpmts_add_install_filename''
                          (hand_over (TsAddInstall filename
                                        (tr_flags tr AND HIF_TRANSACTION_FLAG_ONLY_TRUSTED = 0)
                                        (is_update pkg2))
                             (tr \<lparr> tr_install := Some (visited @ pkg2 # rest) \<rparr>))) (\<lambda>tr.
               tr_then (tr_call (state_done_ok env) ''hif_state_done'' tr) (\<lambda>tr.
               add_installs env (visited @ [pkg2]) rest tr))))"

definition hif_find_pkg_from_name :: "hif_package list \<Rightarrow> string \<Rightarrow> hif_package option" where
  "hif_find_pkg_from_name array pkgname = find (\<lambda>pkg. pkg_name pkg = pkgname) array"

text \<open>
  The loop that adds the packages to remove; it returns the array with the actions it
  has set.
\<close>

fun add_removes ::
  "tr_env \<Rightarrow> hif_package list \<Rightarrow> hif_package list \<Rightarrow> hif_transaction
     \<Rightarrow> tr_error option \<times> hif_transaction \<times> hif_package list" where
  "add_removes env install [] tr = (None, tr, [])"
| "add_removes env install (pkg # rest) tr =
     (if \<not> add_remove_ok env pkg
      then (Some (TrExternal ''hif_rpmts_add_remove_pkg''),
            hand_over (TsAddRemove (pkg_id pkg)) tr, pkg # rest)
      else let pkg' = (if hif_find_pkg_from_name install (pkg_name pkg) \<noteq> None
                       then pkg \<lparr> pkg_action := HIF_STATE_ACTION_CLEANUP \<rparr> else pkg);
               (e, tr', rest') = add_removes env install rest (hand_over (TsAddRemove (pkg_id pkg)) tr)
           in (e, tr', pkg' # rest'))"

text \<open>
  \<open>hy_goal_list_obsoleted_by_package\<close> (hy-goal.c), with the packages made by
  \<open>hif_package_new\<close>.
\<close>

definition hy_goal_list_obsoleted_by_package ::
  "tr_env \<Rightarrow> goal \<Rightarrow> hif_package \<Rightarrow> abort + hif_package list" where
  "hy_goal_list_obsoleted_by_package env g pkg =
     (case goal_trans g of
        None \<Rightarrow> Inl AssertFailed
      | Some t \<Rightarrow> Inr (map (package_new env) (all_obs_pkgs t (pkg_id pkg))))"

text \<open>
  The inner loop of the remove-helper construction, over \<open>j\<close>, with \<open>n\<close> rounds left:
  every round reads \<open>pkglist\<close> at the outer index \<open>i\<close>; \<open>g_ptr_array_index\<close> does not
  check the index.
\<close>

fun helper_inner ::
  "hif_package list \<Rightarrow> nat \<Rightarrow> nat \<Rightarrow> hif_package list \<Rightarrow> abort + hif_package list" where
  "helper_inner pkglist i 0 rh = Inr rh"
| "helper_inner pkglist i (Suc n) rh =
     (if i \<ge> length pkglist then Inl InvalidRead
      else helper_inner pkglist i n (rh @ [(pkglist ! i) \<lparr> pkg_action := HIF_STATE_ACTION_CLEANUP \<rparr>]))"

text \<open>The outer loop, from index \<open>i\<close> on, with the helper array so far.\<close>

function build_remove_helper ::
  "tr_env \<Rightarrow> goal \<Rightarrow> hif_package list \<Rightarrow> nat \<Rightarrow> hif_package list \<Rightarrow> abort + hif_package list" where
  "build_remove_helper env g install i rh =
     (if i < length install then
        (if \<not> is_update (install ! i) then build_remove_helper env g install (Suc i) rh
         else case hy_goal_list_obsoleted_by_package env g (install ! i) of
                Inl a \<Rightarrow> Inl a
              | Inr pkglist \<Rightarrow>
                  (case helper_inner pkglist i (length pkglist) rh of
                     Inl a \<Rightarrow> Inl a
                   | Inr rh' \<Rightarrow> build_remove_helper env g install (Suc i) rh'))
      else Inr rh)"
  by pat_completeness auto
termination
  by (relation "measure (\<lambda>(env, g, install, i, rh). length install - i)") auto

declare build_remove_helper.simps [simp del]

text \<open>
  The loops that fill \<open>erased_by_package_hash\<close>; the inner one reads \<open>pkglist\<close> at the
  outer index as well.  \<open>g_hash_table_insert\<close> replaces the value of a key that is
  present.
\<close>

definition hash_insert :: "string \<Rightarrow> hif_package \<Rightarrow> (string \<times> hif_package) list \<Rightarrow> (string \<times> hif_package) list" where
  "hash_insert k v h = (k, v) # filter (\<lambda>e. fst e \<noteq> k) h"

fun erased_inner ::
  "Id list \<Rightarrow> hif_package \<Rightarrow> hif_package list \<Rightarrow> nat \<Rightarrow> nat \<Rightarrow> (string \<times> hif_package) list
     \<Rightarrow> abort + (string \<times> hif_package) list" where
  "erased_inner all_obsoleted pkg pkglist i 0 h = Inr h"
| "erased_inner all_obsoleted pkg pkglist i (Suc n) h =
     (if i \<ge> length pkglist then Inl InvalidRead
      else erased_inner all_obsoleted pkg pkglist i n
             (if pkg_id (pkglist ! i) \<notin> set all_obsoleted
              then hash_insert (hif_package_get_package_id pkg) (pkglist ! i) h else h))"

function build_erased_by ::
  "tr_env \<Rightarrow> goal \<Rightarrow> Id list \<Rightarrow> hif_package list \<Rightarrow> nat \<Rightarrow> (string \<times> hif_package) list
     \<Rightarrow> abort + (string \<times> hif_package) list" where
  "build_erased_by env g all_obsoleted install i h =
     (if i < length install then
        (if pkg_action (install ! i) \<noteq> HIF_STATE_ACTION_UPDATE
            \<and> pkg_action (install ! i) \<noteq> HIF_STATE_ACTION_DOWNGRADE
            \<and> pkg_action (install ! i) \<noteq> HIF_STATE_ACTION_REINSTALL
         then build_erased_by env g all_obsoleted install (Suc i) h
         else case hy_goal_list_obsoleted_by_package env g (install ! i) of
                Inl a \<Rightarrow> Inl a
              | Inr pkglist \<Rightarrow>
                  (case erased_inner all_obsoleted (install ! i) pkglist i (length pkglist) h of
                     Inl a \<Rightarrow> Inl a
                   | Inr h' \<Rightarrow> build_erased_by env g all_obsoleted install (Suc i) h'))
      else Inr h)"
  by pat_completeness auto
termination
  by (relation "measure (\<lambda>(env, g, all_obsoleted, install, i, h). length install - i)") auto

declare build_erased_by.simps [simp del]

definition hif_transaction_reset :: "hif_transaction \<Rightarrow> hif_transaction" where
  "hif_transaction_reset tr =
     (hand_over TsEmpty tr)
       \<lparr> pkgs_to_download := [], tr_install := None, tr_remove := None,
         remove_helper := None, erased_by_package_hash := None \<rparr>"

text \<open>The part of \<open>hif_transaction_commit\<close> up to the end of the install phase.\<close>

definition commit_install_phase :: "tr_env \<Rightarrow> hif_transaction \<Rightarrow> tr_result" where
  "commit_install_phase env tr =
     tr_then (tr_call (take_lock_ok env) ''hif_state_take_lock'' tr) (\<lambda>tr.
     tr_then (tr_call (set_steps_ok env) ''hif_state_set_steps'' tr) (\<lambda>tr.
     tr_then (tr_call (add_public_keys_ok env) ''hif_keyring_add_public_keys'' tr) (\<lambda>tr.
     tr_then (hif_transaction_check_untrusted env tr, tr) (\<lambda>tr.
     tr_then (if set_root_dir_rc env < 0
              then (Some (TrError HIF_ERROR_INTERNAL_ERROR ''failed to set root'' []),
                    hand_over TsSetRootDir tr)
              else (None, hand_over TsSetRootDir tr)) (\<lambda>tr.
     tr_then (add_installs env [] (goal_install env)
                (tr \<lparr> tr_install := Some (goal_install env) \<rparr>)) (\<lambda>tr.
     tr_call (state_done_ok env) ''hif_state_done'' tr))))))"

text \<open>
  The remove phase and the two helper structures.  \<open>priv->install\<close> is read without a
  check.
\<close>

definition commit_remove_phase :: "tr_env \<Rightarrow> goal \<Rightarrow> hif_transaction \<Rightarrow> tr_result" where
  "commit_remove_phase env g tr =
     (case tr_install tr of
        None \<Rightarrow> (Some (TrCrash InvalidRead), tr)
      | Some install \<Rightarrow>
     (case add_removes env install (goal_remove env) tr of
        (Some e, tr1, rm) \<Rightarrow> (Some e, tr1 \<lparr> tr_remove := Some rm \<rparr>)
      | (None, tr1, rm) \<Rightarrow>
          (case build_remove_helper env g install 0 [] of
             Inl a \<Rightarrow> (Some (TrCrash a), tr1 \<lparr> tr_remove := Some rm \<rparr>)
           | Inr rh \<Rightarrow>
               tr_then (tr_call (state_done_ok env) ''hif_state_done''
                          (tr1 \<lparr> tr_remove := Some rm, remove_helper := Some rh \<rparr>)) (\<lambda>tr2.
               case hy_goal_list_obsoleted g of
                 Inl a \<Rightarrow> (Some (TrCrash a), tr2)
               | Inr lst \<Rightarrow>
                   (case build_erased_by env g (case lst of Inl e \<Rightarrow> [] | Inr ids \<Rightarrow> ids)
                           install 0 [] of
                      Inl a \<Rightarrow> (Some (TrCrash a), tr2)
                    | Inr h \<Rightarrow> (None, tr2 \<lparr> erased_by_package_hash := Some h \<rparr>))))))"

text \<open>
  \<open>g_str_has_prefix\<close>, which answers \<open>FALSE\<close> for a null string.
\<close>

definition g_str_has_prefix :: "string option \<Rightarrow> string \<Rightarrow> bool" where
  "g_str_has_prefix str pfx =
     (case str of None \<Rightarrow> False | Some s \<Rightarrow> take (length pfx) s = pfx)"

text \<open>
  The loop of \<open>hif_transaction_delete_packages\<close> over the rest of \<open>priv->install\<close>, with
  the packages already visited: the file of a package is deleted when its name starts
  with the cache directory.
\<close>

fun delete_each_package ::
  "tr_env \<Rightarrow> string \<Rightarrow> hif_package list \<Rightarrow> hif_package list \<Rightarrow> hif_transaction \<Rightarrow> tr_result" where
  "delete_each_package env cachedir visited [] tr = (None, tr)"
| "delete_each_package env cachedir visited (pkg # rest) tr =
     (case hif_package_get_filename (paths env) pkg of
        (filename, pkg1) \<Rightarrow>
          tr_then (case filename of
                     Some fn \<Rightarrow>
                       if g_str_has_prefix filename cachedir
                       then tr_call (file_delete_ok env fn) ''g_file_delete''
                              (hand_over (GFileDelete fn)
                                 (tr \<lparr> tr_install := Some (visited @ pkg1 # rest) \<rparr>))
                       else (None, tr \<lparr> tr_install := Some (visited @ pkg1 # rest) \<rparr>)
                   | None \<Rightarrow> (None, tr \<lparr> tr_install := Some (visited @ pkg1 # rest) \<rparr>)) (\<lambda>tr.
          tr_then (tr_call (state_done_ok env) ''hif_state_done'' tr) (\<lambda>tr.
          delete_each_package env cachedir (visited @ [pkg1]) rest tr)))"

text \<open>
  \<open>hif_transaction_delete_packages\<close>: nothing to do without installs; else the cache
  directory is needed.
\<close>

definition hif_transaction_delete_packages :: "tr_env \<Rightarrow> hif_transaction \<Rightarrow> tr_result" where
  "hif_transaction_delete_packages env tr =
     (case tr_install tr of
        None \<Rightarrow> (Some (TrCrash InvalidRead), tr)
      | Some install \<Rightarrow>
          if install = [] then (None, tr)
          else case cache_dir env of
                 None \<Rightarrow>
                   (Some (TrError HIF_ERROR_FAILED_CONFIG_PARSING
                            ''Failed to get value for CacheDir'' []), tr)
               | Some cachedir \<Rightarrow> delete_each_package env cachedir [] install tr)"

text \<open>
  Ordering, the test transaction, the run and what follows it.  \<open>look_for_problems\<close> is
  the outcome of \<open>hif_rpmts_look_for_problems\<close> after the run.
\<close>

definition problems_filter :: "tr_env \<Rightarrow> hif_transaction \<Rightarrow> prob_filter list" where
  "problems_filter env tr =
     (if \<not> check_disk_space env then [RPMPROB_FILTER_DISKSPACE] else [])
     @ (if tr_flags tr AND HIF_TRANSACTION_FLAG_ALLOW_REINSTALL \<noteq> 0
        then [RPMPROB_FILTER_REPLACEPKG] else [])
     @ (if tr_flags tr AND HIF_TRANSACTION_FLAG_ALLOW_DOWNGRADE \<noteq> 0
        then [RPMPROB_FILTER_OLDPACKAGE] else [])"

definition run_transaction ::
  "tr_env \<Rightarrow> rpmtrans_flag list \<Rightarrow> string \<Rightarrow> hif_transaction \<Rightarrow> tr_result" where
  "run_transaction env rpmts_flags msg tr =
     (let tr1 = hand_over (TsRun rpmts_flags (problems_filter env tr)) tr
      in if run_rc env < 0
         then (Some (TrError HIF_ERROR_INTERNAL_ERROR msg [ArgInt (run_rc env)]), tr1)
         else if run_rc env > 0
         then tr_call (run_problems_ok env) ''hif_rpmts_look_for_problems'' tr1
         else (None, tr1))"

definition commit_run_phase :: "tr_env \<Rightarrow> hif_transaction \<Rightarrow> tr_result" where
  "commit_run_phase env tr =
     tr_then (if check_transaction env
              then tr_call (test_problems_ok env) ''hif_rpmts_look_for_problems''
                     (hand_over TsCheck ((hand_over TsOrder tr) \<lparr> tr_step := HIF_TRANSACTION_STEP_IGNORE \<rparr>))
              else (None, hand_over TsOrder tr)) (\<lambda>tr.
     tr_then (tr_call (state_done_ok env) ''hif_state_done'' tr) (\<lambda>tr.
     let nodocs = (if tr_flags tr AND HIF_TRANSACTION_FLAG_NODOCS \<noteq> 0
                   then [RPMTRANS_FLAG_NODOCS] else [])
     in if tr_flags tr AND HIF_TRANSACTION_FLAG_TEST \<noteq> 0 then
          tr_then (run_transaction env (nodocs @ [RPMTRANS_FLAG_TEST])
                     ''Error %i running transaction test''
                     (tr \<lparr> tr_step := HIF_TRANSACTION_STEP_IGNORE \<rparr>)) (\<lambda>tr.
          tr_call (state_done_ok env) ''hif_state_done'' tr)
        else
          tr_then (run_transaction env nodocs ''Error %i running transaction''
                     (tr \<lparr> tr_step := HIF_TRANSACTION_STEP_STARTED \<rparr>)) (\<lambda>tr.
          tr_then (if step_after_run env \<noteq> HIF_TRANSACTION_STEP_WRITING
                   then (Some (TrError HIF_ERROR_INTERNAL_ERROR
                                 (''Transaction did not go to writing phase, ''
                                  @ ''but returned no error(%i)'') [ArgStep (step_after_run env)]),
                         tr \<lparr> tr_step := step_after_run env \<rparr>)
                   else (None, tr \<lparr> tr_step := step_after_run env \<rparr>)) (\<lambda>tr.
          tr_then (tr_call (state_done_ok env) ''hif_state_done'' tr) (\<lambda>tr.
          tr_then (tr_call (write_yumdb_ok env) ''hif_transaction_write_yumdb'' tr) (\<lambda>tr.
          tr_then (tr_call (state_done_ok env) ''hif_state_done'' tr) (\<lambda>tr.
          tr_then (if \<not> keep_cache env
                   then hif_transaction_delete_packages env tr
                   else (None, tr)) (\<lambda>tr.
          tr_call (state_done_ok env) ''hif_state_done'' tr))))))))"

text \<open>
  \<open>hif_transaction_commit\<close>: the phases in order, then \<open>hif_transaction_reset\<close> at
  \<open>out:\<close> on every path but a crash.
\<close>

definition hif_transaction_commit :: "tr_env \<Rightarrow> goal \<Rightarrow> hif_transaction \<Rightarrow> tr_result" where
  "hif_transaction_commit env g tr =
     (case tr_then (tr_then (commit_install_phase env tr) (commit_remove_phase env g))
             (commit_run_phase env) of
        (Some (TrCrash a), tr') \<Rightarrow> (Some (TrCrash a), tr')
      | (e, tr') \<Rightarrow> (e, hif_transaction_reset tr'))"

subsection \<open>Example transaction\<close>

text \<open>
  An environment in which every outside call succeeds.  The cache directory's file
  system has 10 bytes free; the goal installs \<open>example_pkg\<close> (100 bytes to download) from
  the repo \<open>main\<close>, whose packages are kept under the cache directory.
\<close>

definition example_repo :: hif_repo where
  "example_repo =
     \<lparr> repo_id = ''main'', repo_location = ''/var/cache/main'',
       repo_packages = ''/var/cache/main/packages'', repo_is_local = False,
       repo_gpgcheck = False \<rparr>"

definition example_paths :: path_ops where
  "example_paths =
     \<lparr> build_filename = (\<lambda>d f. d @ ''/'' @ f),
       path_get_basename = (\<lambda>p. rev (takeWhile (\<lambda>c. c \<noteq> CHR ''/'') (rev p))),
       file_test_exists = (\<lambda>p. True) \<rparr>"

definition example_env :: tr_env where
  "example_env =
     \<lparr> cache_dir = Some ''/var/cache'',
       filesystem_free = (\<lambda>p. FreeBytes 10),
       g_format_size = (\<lambda>n. if n = 10 then ''10 bytes'' else if n = 100 then ''100 bytes''
                             else ''?''),
       paths = example_paths,
       array_download_ok = (\<lambda>ps. True),
       take_lock_ok = True,
       set_steps_ok = True,
       add_public_keys_ok = True,
       keyring_check = (\<lambda>f. KeyringOk),
       set_root_dir_rc = 0,
       add_install_ok = (\<lambda>f. True),
       add_remove_ok = (\<lambda>p. True),
       state_done_ok = True,
       goal_install = [example_pkg],
       goal_remove = [],
       package_new = (\<lambda>i. example_pkg \<lparr> pkg_id := i, pkg_name := (if i = 4 then ''old-tour''
                             else ''tour-libs''), pkg_action := HIF_STATE_ACTION_UNKNOWN \<rparr>),
       check_transaction = False,
       test_problems_ok = True,
       check_disk_space = True,
       run_rc = 0,
       run_problems_ok = True,
       step_after_run = HIF_TRANSACTION_STEP_WRITING,
       write_yumdb_ok = True,
       keep_cache = True,
       file_delete_ok = (\<lambda>f. True) \<rparr>"

definition example_transaction :: hif_transaction where
  "example_transaction =
     \<lparr> tr_flags = 0, tr_repos = Some [example_repo], pkgs_to_download = [example_pkg],
       tr_install = None, tr_remove = None, remove_helper = None,
       erased_by_package_hash = None, tr_step = HIF_TRANSACTION_STEP_STARTED, ts_ops = [] \<rparr>"

text \<open>
  A solved goal whose transaction lets package 6 displace packages 4 and 5, the
  updating package, and a package that is newly installed.
\<close>

definition update_goal :: goal where
  "update_goal =
     hy_goal_create \<lparr> goal_trans := Some
       \<lparr> steps = [6], type_common = (\<lambda>p. SOLVER_TRANSACTION_UPGRADE),
         type_active = (\<lambda>p. SOLVER_TRANSACTION_UPGRADE),
         all_obs_pkgs = (\<lambda>p. if p = 6 then [4, 5] else []) \<rparr> \<rparr>"

definition updating_pkg :: hif_package where
  "updating_pkg = example_pkg \<lparr> pkg_id := 6, pkg_action := HIF_STATE_ACTION_UPDATE \<rparr>"

definition installed_pkg :: hif_package where
  "installed_pkg = example_pkg \<lparr> pkg_id := 7, pkg_name := ''other'' \<rparr>"

subsection \<open>Varying the free space and the download list\<close>





definition cleaning_env :: "string option \<Rightarrow> tr_env" where
  "cleaning_env c = example_env \<lparr> cache_dir := c, keep_cache := False \<rparr>"

section \<open>Properties\<close>

subsection \<open>Selectors without a required axis\<close>

text \<open>
  C5, as stated, at the selector with no axis at all: the claim asks for
  \<open>BadSelector\<close>; \<open>sltr2job\<close> returns 0 there (the error is raised only under
  \<open>if (any_opt_filter)\<close>) and leaves the queue as it was.
\<close>

theorem sltr2job_empty_selector_counterexample:
  "sltr2job example_ops empty_selector [(SOLVER_SOLVABLE OR SOLVER_INSTALL, 2)] SOLVER_INSTALL
     = Inr (RET_0, [(SOLVER_SOLVABLE OR SOLVER_INSTALL, 2)])
   \<and> RET_0 \<noteq> RET_ERROR HIF_ERROR_BAD_SELECTOR"
  by (simp add: sltr2job_def empty_selector_def)

text \<open>
  C5, amended: a selector with none of the name, provides and file axes never adds a
  job; it returns \<open>BadSelector\<close> when one of the arch, evr or reponame axes is set, and
  0 (success, nothing staged) when the selector is entirely empty.
\<close>

theorem sltr2job_no_required_axis:
  assumes "f_name sltr = None" and "f_provides sltr = None" and "f_file sltr = None"
  shows "sltr2job ops sltr jb solver_action =
           Inr (if f_arch sltr \<noteq> None \<or> f_evr sltr \<noteq> None \<or> f_reponame sltr \<noteq> None
                then RET_ERROR HIF_ERROR_BAD_SELECTOR else RET_0, jb)"
  using assms by (simp add: sltr2job_def)

theorem sltr2job_no_required_axis_witness:
  "f_name arch_only_selector = None \<and> f_provides arch_only_selector = None
   \<and> f_file arch_only_selector = None
   \<and> sltr2job example_ops arch_only_selector [] SOLVER_ERASE
       = Inr (RET_ERROR HIF_ERROR_BAD_SELECTOR, [])"
proof -
  have n: "f_name arch_only_selector = None"
    and p: "f_provides arch_only_selector = None"
    and f: "f_file arch_only_selector = None"
    by (simp_all add: arch_only_selector_def empty_selector_def)
  have "f_arch arch_only_selector \<noteq> None"
    by (simp add: arch_only_selector_def)
  with sltr2job_no_required_axis [OF n p f, of example_ops "[]" SOLVER_ERASE] n p f
  show ?thesis by simp
qed

subsection \<open>The disabled reason store\<close>

lemma hif_db_set_string_disabled:
  "\<not> enabled db \<Longrightarrow> snd (hif_db_set_string gio db fs package key val) = fs"
  by (simp add: hif_db_set_string_def split: option.splits)

lemma hif_db_remove_disabled:
  "\<not> enabled db \<Longrightarrow> snd (hif_db_remove gio db fs package key) = fs"
  by (simp add: hif_db_remove_def split: option.splits)

lemma hif_db_remove_all_disabled:
  "\<not> enabled db \<Longrightarrow> snd (hif_db_remove_all gio db fs package) = fs"
  by (simp add: hif_db_remove_all_def split: option.splits)

lemma hif_db_get_dir_for_package_enabled:
  "hif_db_get_dir_for_package (db \<lparr> enabled := en \<rparr>) pkg = hif_db_get_dir_for_package db pkg"
  by (simp add: hif_db_get_dir_for_package_def Let_def split: option.splits)

text \<open>
  C10: after \<open>hif_db_set_enabled(db, FALSE)\<close> the three mutating calls leave the store
  as it was whatever their arguments, and return success (\<open>TRUE\<close>) for arguments that
  pass the \<open>g_return_val_if_fail\<close> checks, which stand before the \<open>enabled\<close> test and
  reject only \<open>NULL\<close> arguments; \<open>hif_db_get_string\<close> does not read the flag, so it
  reads the store as it does for an enabled database.
\<close>

theorem hif_db_disabled_noop:
  "snd (hif_db_set_string gio (hif_db_set_enabled db False) fs package key val) = fs
   \<and> snd (hif_db_remove gio (hif_db_set_enabled db False) fs package key) = fs
   \<and> snd (hif_db_remove_all gio (hif_db_set_enabled db False) fs package) = fs
   \<and> hif_db_set_string gio (hif_db_set_enabled db False) fs (Some p) (Some k) (Some v)
       = (Inr (), fs)
   \<and> hif_db_remove gio (hif_db_set_enabled db False) fs (Some p) (Some k) = (Inr (), fs)
   \<and> hif_db_remove_all gio (hif_db_set_enabled db False) fs (Some p) = (Inr (), fs)
   \<and> hif_db_get_string gio (hif_db_set_enabled db False) fs package key
       = hif_db_get_string gio db fs package key"
proof -
  have e: "\<not> enabled (hif_db_set_enabled db False)"
    by (simp add: hif_db_set_enabled_def)
  have "hif_db_set_string gio (hif_db_set_enabled db False) fs (Some p) (Some k) (Some v)
          = (Inr (), fs)"
    using e by (simp add: hif_db_set_string_def)
  moreover have "hif_db_remove gio (hif_db_set_enabled db False) fs (Some p) (Some k)
          = (Inr (), fs)"
    using e by (simp add: hif_db_remove_def)
  moreover have "hif_db_remove_all gio (hif_db_set_enabled db False) fs (Some p) = (Inr (), fs)"
    using e by (simp add: hif_db_remove_all_def)
  moreover have "hif_db_get_string gio (hif_db_set_enabled db False) fs package key
          = hif_db_get_string gio db fs package key"
    by (simp add: hif_db_set_enabled_def hif_db_get_string_def
        hif_db_get_dir_for_package_enabled split: option.splits)
  moreover have "snd (hif_db_set_string gio (hif_db_set_enabled db False) fs package key val) = fs"
    using e by (rule hif_db_set_string_disabled)
  moreover have "snd (hif_db_remove gio (hif_db_set_enabled db False) fs package key) = fs"
    using e by (rule hif_db_remove_disabled)
  moreover have "snd (hif_db_remove_all gio (hif_db_set_enabled db False) fs package) = fs"
    using e by (rule hif_db_remove_all_disabled)
  ultimately show ?thesis
    by simp
qed

text \<open>
  On the example store: the disabled database accepts a write and a removal of the
  \<open>reason\<close> key without changing the store, and still reads the key.
\<close>

lemma example_read: "hif_db_get_string mem_gio example_db example_fs (Some example_pkg)
    (Some ''reason'') = Inr ''user''"
  by (simp add: hif_db_get_string_def hif_db_get_dir_for_package_def example_db_def
      example_pkg_def example_fs_def mem_gio_def yumdb_dir_def)

theorem hif_db_disabled_noop_witness:
  "hif_db_set_string mem_gio (hif_db_set_enabled example_db False) example_fs
       (Some example_pkg) (Some ''reason'') (Some ''dep'') = (Inr (), example_fs)
   \<and> hif_db_remove mem_gio (hif_db_set_enabled example_db False) example_fs
       (Some example_pkg) (Some ''reason'') = (Inr (), example_fs)
   \<and> hif_db_remove_all mem_gio (hif_db_set_enabled example_db False) example_fs
       (Some example_pkg) = (Inr (), example_fs)
   \<and> hif_db_get_string mem_gio (hif_db_set_enabled example_db False) example_fs
       (Some example_pkg) (Some ''reason'') = Inr ''user''"
  using hif_db_disabled_noop [of mem_gio example_db example_fs "Some example_pkg"
      "Some ''reason''" "Some ''dep''" example_pkg "''reason''" "''dep''"]
    example_read
  by simp

subsection \<open>Query evaluation\<close>

lemma pkg_solvables_below: "p \<in> set (pkg_solvables pool) \<Longrightarrow> p < nsolvables pool"
  by (auto simp: pkg_solvables_def)

lemma init_result_spec: "init_result pool q = spec_initial_result pool q"
  by (auto simp: init_result_def spec_initial_result_def Let_def
      dest: pkg_solvables_below split: option.splits)

text \<open>The index loop visits the filters in list order.\<close>

lemma apply_filters_from_spec:
  "apply_filters_from pool fs i res = spec_fold_filters pool res (drop i fs)"
proof (induction pool fs i res rule: apply_filters_from.induct)
  case (1 pool fs i res)
  show ?case
  proof (cases "i < length fs")
    case True
    then have d: "drop i fs = fs ! i # drop (Suc i) fs"
      by (simp add: Cons_nth_drop_Suc)
    show ?thesis
    proof (cases "compute_m pool res (fs ! i)")
      case (Inl a)
      with True d show ?thesis
        by (subst apply_filters_from.simps) simp
    next
      case (Inr m)
      with True d "1.IH" [OF True Inr] show ?thesis
        by (subst apply_filters_from.simps) simp
    qed
  next
    case False
    then show ?thesis
      by (subst apply_filters_from.simps) simp
  qed
qed

lemma restaged_query_reached:
  "hy_query_apply example_pool (snd (hy_query_filter_empty hy_query_create)) = Inr emptied_query
   \<and> hy_query_filter_package_in emptied_query HY_PKG HY_NEQ {2} = (RET_0, restaged_query)"
  by code_simp

text \<open>
  C3, as stated, at a query that was emptied by an earlier \<open>apply\<close> and then got the
  filter "not package 2": the claim's evaluation starts from all packages and yields
  packages 3 and 4; \<open>hy_query_apply\<close> keeps the existing result bitmap (\<open>init_result\<close>
  runs only under \<open>if (!q->result)\<close>) and yields the empty set.
\<close>

theorem hy_query_apply_reinit_counterexample:
  "spec_apply example_pool restaged_query = Inr {3, 4}
   \<and> apply_filters example_pool restaged_query = Inr {}
   \<and> result_of (hy_query_apply example_pool restaged_query) = Some {}"
  by code_simp

text \<open>
  C3, amended: a query that is already applied is returned unchanged.  For any other
  query the filter stage of \<open>hy_query_apply\<close> starts from the existing result bitmap
  when there is one, and otherwise from all package solvables intersected with the
  considered bitmap (not intersected when the query ignores excludes); from there each
  staged filter, in insertion order, subtracts its bitmap under \<open>NOT\<close> and intersects
  with it otherwise.  When no modifier is set, that is the result.
\<close>

theorem hy_query_apply_filter_stage:
  "(applied q \<longrightarrow> hy_query_apply pool q = Inr q)
   \<and> (result q = None \<longrightarrow>
        apply_filters pool q = spec_fold_filters pool (spec_initial_result pool q) (filters q))
   \<and> (result q = Some r \<longrightarrow> apply_filters pool q = spec_fold_filters pool r (filters q))
   \<and> (\<not> applied q \<and> downgradable q = 0 \<and> downgrades q = 0 \<and> updatable q = 0
        \<and> updates q = 0 \<and> latest q = 0 \<and> apply_filters pool q = Inr res \<longrightarrow>
        hy_query_apply pool q
          = Inr (clear_filters (q \<lparr> result := Some res, applied := True \<rparr>)))"
  by (simp add: hy_query_apply_def apply_filters_def apply_filters_from_spec
      init_result_spec modifier_def)

theorem hy_query_apply_filter_stage_witness:
  "applied emptied_query
   \<and> hy_query_apply example_pool emptied_query = Inr emptied_query
   \<and> result hy_query_create = None
   \<and> apply_filters example_pool hy_query_create = Inr {2, 3, 4}
   \<and> result restaged_query = Some {}
   \<and> apply_filters example_pool restaged_query = Inr {}
   \<and> \<not> applied restaged_query
   \<and> hy_query_apply example_pool restaged_query = Inr emptied_query"
proof -
  have a: "applied emptied_query"
    and n: "result hy_query_create = None"
    and s: "result restaged_query = Some {}"
    and u: "\<not> applied restaged_query \<and> downgradable restaged_query = 0
            \<and> downgrades restaged_query = 0 \<and> updatable restaged_query = 0
            \<and> updates restaged_query = 0 \<and> latest restaged_query = 0"
    by code_simp+
  have f1: "spec_fold_filters example_pool (spec_initial_result example_pool hy_query_create)
              (filters hy_query_create) = Inr {2, 3, 4}"
    by code_simp
  have f2: "spec_fold_filters example_pool {} (filters restaged_query) = Inr {}"
    by code_simp
  have c: "clear_filters (restaged_query \<lparr> result := Some {}, applied := True \<rparr>) = emptied_query"
    by code_simp
  from hy_query_apply_filter_stage [of emptied_query example_pool "{}" "{}"] a
  have 1: "hy_query_apply example_pool emptied_query = Inr emptied_query"
    by simp
  from hy_query_apply_filter_stage [of hy_query_create example_pool "{}" "{}"] n f1
  have 2: "apply_filters example_pool hy_query_create = Inr {2, 3, 4}"
    by simp
  from hy_query_apply_filter_stage [of restaged_query example_pool "{}" "{}"] s f2
  have 3: "apply_filters example_pool restaged_query = Inr {}"
    by simp
  from hy_query_apply_filter_stage [of restaged_query example_pool "{}" "{}"] u 3 c
  have 4: "hy_query_apply example_pool restaged_query = Inr emptied_query"
    by simp
  from a n s u 1 2 3 4 show ?thesis by simp
qed

subsection \<open>Latest\<close>

lemma filter_latest_sortcmp_ids: "filter_latest_sortcmp pool a b = a - b"
  by (simp add: filter_latest_sortcmp_def)

text \<open>
  C4 on the example pool, where the two foo packages (ids 2 and 4) are separated by
  bar (id 3): the callback reads both names from its first argument, so the queue is
  sorted by id alone, the scan sees three blocks of one package, and both foo packages
  stay in the result.  With \<open>latest_per_arch\<close>, whose callback compares the names of
  both arguments, only the newest foo stays.
\<close>

theorem filter_latest_keeps_older_foo:
  "solv_sort (filter_latest_sortcmp example_pool) [2, 3, 4] = [2, 3, 4]
   \<and> result_of (hy_query_apply example_pool (hy_query_filter_latest hy_query_create 1))
       = Some {2, 3, 4}
   \<and> solvable_name example_pool 2 = solvable_name example_pool 4
   \<and> pool_evrcmp example_pool (solvable_evr example_pool 2) (solvable_evr example_pool 4) < 0
   \<and> result_of (hy_query_apply example_pool (hy_query_filter_latest_per_arch hy_query_create 1))
       = Some {3, 4}"
  by code_simp

subsection \<open>filter\_empty\<close>

lemma compute_m_empty_filter: "compute_m pool res empty_filter = Inr {}"
  by (simp add: compute_m_def empty_filter_def filter_all_def)

lemma HY_EQ_has_no_NOT: "HY_EQ AND HY_NOT = 0"
  by (simp add: HY_EQ_def HY_NOT_def)

lemma spec_fold_subset: "spec_fold_filters pool res fs = Inr r \<Longrightarrow> r \<subseteq> res"
proof (induction fs arbitrary: res)
  case Nil
  then show ?case by simp
next
  case (Cons f fs)
  then show ?case
    by (fastforce split: sum.splits if_splits)
qed

lemma spec_fold_empty_filter:
  "empty_filter \<in> set fs \<Longrightarrow> spec_fold_filters pool res fs = Inr r \<Longrightarrow> r = {}"
proof (induction fs arbitrary: res)
  case Nil
  then show ?case by simp
next
  case (Cons f fs)
  show ?case
  proof (cases "f = empty_filter")
    case True
    with Cons.prems(2) have "spec_fold_filters pool {} fs = Inr r"
      by (simp add: compute_m_empty_filter) (simp add: empty_filter_def HY_EQ_has_no_NOT)
    then show ?thesis using spec_fold_subset by blast
  next
    case False
    with Cons.prems(1) have "empty_filter \<in> set fs" by simp
    with Cons.prems(2) Cons.IH show ?thesis
      by (auto split: sum.splits)
  qed
qed

lemma latest_scan_subset: "latest_scan pool pa hp res ps \<subseteq> res"
  by (induction pool pa hp res ps rule: latest_scan.induct) auto

lemma filter_latest_subset: "filter_latest pool q res \<subseteq> res"
  by (simp add: filter_latest_def Let_def latest_scan_subset)

lemma filter_updown_subset: "filter_updown pool d r0 = Inr r \<Longrightarrow> r \<subseteq> r0"
  by (auto simp: filter_updown_def split: if_splits)

lemma filter_updown_able_subset: "filter_updown_able pool d r0 = Inr r \<Longrightarrow> r \<subseteq> r0"
  by (auto simp: filter_updown_able_def Let_def split: if_splits)

lemma modifier_latest_subset:
  "modifier flag (\<lambda>r. Inr (filter_latest pool q r)) x = Inr r \<Longrightarrow> \<exists>r0. x = Inr r0 \<and> r \<subseteq> r0"
  using filter_latest_subset [of pool q]
  by (cases x) (auto simp: modifier_def split: if_splits)

lemma modifier_updown_subset:
  "modifier flag (filter_updown pool d) x = Inr r \<Longrightarrow> \<exists>r0. x = Inr r0 \<and> r \<subseteq> r0"
  by (cases x) (auto simp: modifier_def dest: filter_updown_subset split: if_splits)

lemma modifier_updown_able_subset:
  "modifier flag (filter_updown_able pool d) x = Inr r \<Longrightarrow> \<exists>r0. x = Inr r0 \<and> r \<subseteq> r0"
  by (cases x) (auto simp: modifier_def dest: filter_updown_able_subset split: if_splits)

text \<open>The modifiers only clear bits.\<close>

lemma hy_query_apply_subset:
  assumes "\<not> applied q" and "hy_query_apply pool q = Inr q'"
  shows "\<exists>r0 r. apply_filters pool q = Inr r0 \<and> result q' = Some r \<and> r \<subseteq> r0"
proof -
  from assms obtain r where
    m: "modifier (latest q) (\<lambda>r. Inr (filter_latest pool q r))
               (modifier (updates q) (filter_updown pool False)
                 (modifier (updatable q) (filter_updown_able pool False)
                   (modifier (downgrades q) (filter_updown pool True)
                     (modifier (downgradable q) (filter_updown_able pool True)
                       (apply_filters pool q))))) = Inr r"
    and q': "result q' = Some r"
    by (auto simp: hy_query_apply_def clear_filters_def split: sum.splits)
  from modifier_latest_subset [OF m] obtain r4 where
    m4: "modifier (updates q) (filter_updown pool False)
                 (modifier (updatable q) (filter_updown_able pool False)
                   (modifier (downgrades q) (filter_updown pool True)
                     (modifier (downgradable q) (filter_updown_able pool True)
                       (apply_filters pool q)))) = Inr r4" and s4: "r \<subseteq> r4"
    by blast
  from modifier_updown_subset [OF m4] obtain r3 where
    m3: "modifier (updatable q) (filter_updown_able pool False)
                   (modifier (downgrades q) (filter_updown pool True)
                     (modifier (downgradable q) (filter_updown_able pool True)
                       (apply_filters pool q))) = Inr r3" and s3: "r4 \<subseteq> r3"
    by blast
  from modifier_updown_able_subset [OF m3] obtain r2 where
    m2: "modifier (downgrades q) (filter_updown pool True)
                     (modifier (downgradable q) (filter_updown_able pool True)
                       (apply_filters pool q)) = Inr r2" and s2: "r3 \<subseteq> r2"
    by blast
  from modifier_updown_subset [OF m2] obtain r1 where
    m1: "modifier (downgradable q) (filter_updown_able pool True)
                       (apply_filters pool q) = Inr r1" and s1: "r2 \<subseteq> r1"
    by blast
  from modifier_updown_able_subset [OF m1] obtain r0 where
    m0: "apply_filters pool q = Inr r0" and s0: "r1 \<subseteq> r0"
    by blast
  from s0 s1 s2 s3 s4 have "r \<subseteq> r0" by blast
  with m0 q' show ?thesis by blast
qed

text \<open>
  What C9 says holds for every query that is not marked applied when it is evaluated:
  with the \<open>filter_empty\<close> filter anywhere among the staged filters, a run of
  \<open>hy_query_apply\<close> that returns leaves the empty result.
\<close>

lemma filter_empty_unapplied:
  assumes "\<not> applied q" and "empty_filter \<in> set (filters q)"
    and "hy_query_apply pool q = Inr q'"
  shows "result q' = Some {}"
proof -
  from hy_query_apply_subset [OF assms(1) assms(3)] obtain r0 r where
    a: "apply_filters pool q = Inr r0" and r: "result q' = Some r" and s: "r \<subseteq> r0"
    by blast
  from a have "spec_fold_filters pool
      (case result q of None \<Rightarrow> init_result pool q | Some r \<Rightarrow> r) (filters q) = Inr r0"
    by (simp add: apply_filters_def apply_filters_from_spec)
  with assms(2) have "r0 = {}"
    by (rule spec_fold_empty_filter)
  with s r show ?thesis by simp
qed

lemma all_query_reached: "hy_query_apply example_pool hy_query_create = Inr all_query"
  by code_simp

text \<open>
  C9 on a query that has been applied before (\<open>all_query\<close> is \<open>hy_query_create\<close>
  after \<open>hy_query_apply\<close> on the example pool): \<open>hy_query_filter_empty\<close> stages its
  filter without clearing \<open>q->applied\<close>, as every other staging function does, so the
  next \<open>hy_query_apply\<close> returns at once; the three packages stay in the result and the
  filter stays staged.
\<close>

theorem filter_empty_on_applied_query:
  "applied (snd (hy_query_filter_empty all_query))
   \<and> hy_query_apply example_pool (snd (hy_query_filter_empty all_query))
       = Inr (snd (hy_query_filter_empty all_query))
   \<and> result_of (hy_query_apply example_pool (snd (hy_query_filter_empty all_query)))
       = Some {2, 3, 4}
   \<and> applied (snd (hy_query_filter_package_in all_query HY_PKG HY_EQ {2})) = False"
  by code_simp

subsection \<open>Set algebra between queries\<close>

lemma combine_applied:
  assumes "applied a" and "applied b" and "result a = Some A" and "result b = Some B"
  shows "combine_queries map_op pool a b = Inr (a \<lparr> result := Some (map_op A B) \<rparr>)"
  using assms by (simp add: combine_queries_def hy_query_apply_def)

text \<open>
  C8: for applied queries \<open>a\<close>, \<open>b\<close>, \<open>c\<close> of one pool with result bitmaps \<open>A\<close>, \<open>B\<close>,
  \<open>C\<close>: the union leaves \<open>A \<union> B\<close> in either order; uniting \<open>a\<close> with \<open>b\<close> and then with
  \<open>c\<close> leaves what uniting \<open>b\<close> with \<open>c\<close> and then \<open>a\<close> with that leaves; the intersection
  of \<open>a\<close> and \<open>b\<close> leaves what subtracting from \<open>a\<close> the difference of \<open>a\<close> and \<open>b\<close>
  leaves; and the difference of \<open>a\<close> with itself leaves the empty bitmap.
\<close>

theorem query_set_algebra:
  assumes "applied a" and "applied b" and "applied c"
    and "result a = Some A" and "result b = Some B" and "result c = Some C"
  shows "result_of (hy_query_union pool a b) = Some (A \<union> B)
   \<and> result_of (hy_query_union pool a b) = result_of (hy_query_union pool b a)
   \<and> result_of (then_query (hy_query_union pool a b) (\<lambda>ab. hy_query_union pool ab c))
       = result_of (then_query (hy_query_union pool b c) (\<lambda>bc. hy_query_union pool a bc))
   \<and> result_of (then_query (hy_query_union pool a b) (\<lambda>ab. hy_query_union pool ab c))
       = Some (A \<union> B \<union> C)
   \<and> result_of (hy_query_intersection pool a b)
       = result_of (then_query (hy_query_difference pool a b) (\<lambda>d. hy_query_difference pool a d))
   \<and> result_of (hy_query_intersection pool a b) = Some (A \<inter> B)
   \<and> result_of (hy_query_difference pool a a) = Some {}"
proof -
  have ab: "hy_query_union pool a b = Inr (a \<lparr> result := Some (A \<union> B) \<rparr>)"
    unfolding hy_query_union_def using assms by (simp add: combine_applied)
  have ba: "hy_query_union pool b a = Inr (b \<lparr> result := Some (B \<union> A) \<rparr>)"
    unfolding hy_query_union_def using assms by (simp add: combine_applied)
  have bc: "hy_query_union pool b c = Inr (b \<lparr> result := Some (B \<union> C) \<rparr>)"
    unfolding hy_query_union_def using assms by (simp add: combine_applied)
  have ab_c: "hy_query_union pool (a \<lparr> result := Some (A \<union> B) \<rparr>) c
                = Inr (a \<lparr> result := Some (A \<union> B \<union> C) \<rparr>)"
    unfolding hy_query_union_def using assms by (simp add: combine_applied)
  have a_bc: "hy_query_union pool a (b \<lparr> result := Some (B \<union> C) \<rparr>)
                = Inr (a \<lparr> result := Some (A \<union> (B \<union> C)) \<rparr>)"
    unfolding hy_query_union_def using assms by (simp add: combine_applied)
  have i: "hy_query_intersection pool a b = Inr (a \<lparr> result := Some (A \<inter> B) \<rparr>)"
    unfolding hy_query_intersection_def using assms by (simp add: combine_applied)
  have d: "hy_query_difference pool a b = Inr (a \<lparr> result := Some (A - B) \<rparr>)"
    unfolding hy_query_difference_def using assms by (simp add: combine_applied)
  have dd: "hy_query_difference pool a (a \<lparr> result := Some (A - B) \<rparr>)
                = Inr (a \<lparr> result := Some (A - (A - B)) \<rparr>)"
    unfolding hy_query_difference_def using assms by (simp add: combine_applied)
  have aa: "hy_query_difference pool a a = Inr (a \<lparr> result := Some (A - A) \<rparr>)"
    unfolding hy_query_difference_def using assms by (simp add: combine_applied)
  have s1: "B \<union> A = A \<union> B" and s2: "A \<union> (B \<union> C) = A \<union> B \<union> C"
    and s3: "A - (A - B) = A \<inter> B"
    by blast+
  show ?thesis
    by (simp add: ab ba bc ab_c a_bc i d dd aa result_of_def then_query_def s1 s2 s3)
qed

theorem query_set_algebra_witness:
  "applied foo_query \<and> applied new_query \<and> applied all_query
   \<and> result_of (hy_query_union example_pool foo_query new_query) = Some {2, 3, 4}
   \<and> result_of (hy_query_union example_pool new_query foo_query) = Some {2, 3, 4}
   \<and> result_of (hy_query_intersection example_pool foo_query new_query) = Some {4}
   \<and> result_of (then_query (hy_query_difference example_pool foo_query new_query)
         (hy_query_difference example_pool foo_query)) = Some {4}
   \<and> result_of (hy_query_difference example_pool foo_query foo_query) = Some {}"
proof -
  have h: "applied foo_query" "applied new_query" "applied all_query"
    "result foo_query = Some {2, 4}" "result new_query = Some {3, 4}"
    "result all_query = Some {2, 3, 4}"
    by code_simp+
  have e: "{2, 4} \<union> {3, 4} = {2, 3, 4 :: int}" "{2, 4} \<inter> {3, 4} = {4 :: int}"
    by auto
  note t = query_set_algebra [OF h, of example_pool]
  from t have u1: "result_of (hy_query_union example_pool foo_query new_query)
      = Some ({2, 4} \<union> {3, 4})"
    by blast
  from t have u2: "result_of (hy_query_union example_pool new_query foo_query)
      = result_of (hy_query_union example_pool foo_query new_query)"
    by metis
  from t have i1: "result_of (hy_query_intersection example_pool foo_query new_query)
      = Some ({2, 4} \<inter> {3, 4})"
    by blast
  from t have i2: "result_of (then_query (hy_query_difference example_pool foo_query new_query)
         (hy_query_difference example_pool foo_query))
      = result_of (hy_query_intersection example_pool foo_query new_query)"
    by metis
  from t have d: "result_of (hy_query_difference example_pool foo_query foo_query) = Some {}"
    by blast
  show ?thesis
    using h(1-3) by (simp only: u2 i2 u1 i1 d e)
qed

subsection \<open>Removal of protected packages\<close>

lemma keep_protected_eq:
  "keep_protected prot ps = (\<exists>p\<in>set ps. p \<in> prot, filter (\<lambda>p. p \<in> prot) ps)"
  by (induction ps) (auto simp: Let_def)

text \<open>
  What \<open>solve\<close> does after a successful solver run whose transaction touches a protected
  package: it returns 1, counts one problem more than the solver and records the
  protected packages among the removed and obsoleted ones.  The transaction stays in
  the goal.
\<close>

lemma finish_solve_protected:
  assumes "protected g = Some prot"
    and "removed_and_obsoleted (g \<lparr> goal_trans := Some (created_transaction sv) \<rparr>) = Inr rem"
    and "\<exists>p\<in>set rem. p \<in> prot"
  shows "\<exists>g'. finish_solve g sv calls = Inr (1, g', calls)
           \<and> removal_of_protected g' = Some (filter (\<lambda>p. p \<in> prot) rem)
           \<and> goal_trans g' = Some (created_transaction sv)
           \<and> (solv g' = Some sv \<longrightarrow>
                hy_goal_count_problems g' = Inr (problem_count sv + 1))"
proof -
  from assms(3) have "filter (\<lambda>p. p \<in> prot) rem \<noteq> []"
    by (simp add: filter_empty_conv)
  then have "min 1 (length (filter (\<lambda>p. p \<in> prot) rem)) = 1"
    by (cases "filter (\<lambda>p. p \<in> prot) rem") simp_all
  with assms show ?thesis
    by (simp add: finish_solve_def protected_in_removals_def keep_protected_eq
        hy_goal_count_problems_def)
qed

text \<open>
  C1 on the example system: walrus and penny are protected and both are to be erased;
  the solver finds no problem and its transaction erases both.  \<open>hy_goal_run\<close> returns
  1 and \<open>hy_goal_count_problems\<close> is 1 (the solver's count 0 plus one), as the claim
  says.  But the transaction is kept: \<open>hy_goal_list_erasures\<close> still lists both
  packages.  And \<open>hy_goal_describe_problem\<close> reads the package at the index of the
  problem (\<open>i\<close>) on every round of its loop over \<open>j\<close>, so it names walrus twice and
  penny not at all.
\<close>

theorem protected_removal_run:
  "(case hy_goal_run example_solver goal_pool plain_sack erase_protected_goal of
      Inl a \<Rightarrow> False
    | Inr (r, g, calls) \<Rightarrow>
        r = 1
        \<and> removal_of_protected g = Some [2, 3]
        \<and> hy_goal_count_problems g = Inr 1
        \<and> hy_goal_list_erasures g = Inr (Inr [2, 3])
        \<and> hy_goal_describe_problem goal_pool g 0
            = Inr (Some (''The operation would result in removing the following''
                         @ '' protected packages: walrus, walrus''))
        \<and> package_name goal_pool 3 = ''penny'')"
  by code_simp

subsection \<open>The install-only limit\<close>

lemma pop_same_eq:
  "pop_same pool nm inq out =
     (rev (dropWhile (\<lambda>x. solvable_name pool x = nm) (rev inq)),
      out @ takeWhile (\<lambda>x. solvable_name pool x = nm) (rev inq))"
proof (induction pool nm inq out rule: pop_same.induct)
  case (1 pool name inq out)
  show ?case
  proof (cases "inq \<noteq> [] \<and> solvable_name pool (last inq) = name")
    case True
    then obtain ys y where inq: "inq = ys @ [y]" and y: "solvable_name pool y = name"
      by (cases inq rule: rev_cases) auto
    from "1.IH" [OF True] inq y show ?thesis
      by (subst pop_same.simps) simp
  next
    case False
    show ?thesis
    proof (cases inq rule: rev_cases)
      case Nil
      then show ?thesis by (subst pop_same.simps) simp
    next
      case (snoc ys y)
      with False show ?thesis by (subst pop_same.simps) simp
    qed
  qed
qed

text \<open>
  A subqueue is the longest run of the last package's name at the end of the queue,
  read backwards.
\<close>

lemma same_name_subqueue_eq:
  assumes "q \<noteq> []"
  shows "same_name_subqueue pool q =
     (rev (dropWhile (\<lambda>x. solvable_name pool x = solvable_name pool (last q)) (rev q)),
      takeWhile (\<lambda>x. solvable_name pool x = solvable_name pool (last q)) (rev q))"
proof -
  from assms obtain ys y where q: "q = ys @ [y]"
    by (cases q rule: rev_cases) auto
  then show ?thesis
    by (simp add: same_name_subqueue_def queue_pop_def pop_same_eq)
qed

lemma push_limit_jobs_eq:
  "push_limit_jobs lim j xs jb =
     jb @ map (Pair (SOLVER_INSTALL OR SOLVER_SOLVABLE)) (take (nat (lim - int j)) xs)
        @ map (Pair (SOLVER_ERASE OR SOLVER_SOLVABLE)) (drop (nat (lim - int j)) xs)"
proof (induction xs arbitrary: j jb)
  case Nil
  then show ?case by simp
next
  case (Cons x xs)
  show ?case
  proof (cases "int j < lim")
    case True
    then have "nat (lim - int j) = Suc (nat (lim - int (Suc j)))"
      by simp
    with True Cons.IH [of "Suc j"] show ?thesis
      by simp
  next
    case False
    then have "nat (lim - int j) = 0" "nat (lim - int (Suc j)) = 0"
      by simp_all
    with False Cons.IH [of "Suc j"] show ?thesis
      by simp
  qed
qed

lemma sort_packages_name_le:
  "sort_packages pool rk a b \<le> 0 \<Longrightarrow> solvable_name pool a \<le> solvable_name pool b"
  by (auto simp: sort_packages_def Let_def split: if_splits)

lemma sort_packages_same_name:
  assumes "sort_packages pool rk b a \<le> 0" and "solvable_name pool a = solvable_name pool b"
    and "0 \<le> rk"
  shows "\<not> kernel_related pool rk b
     \<and> (kernel_related pool rk a
        \<or> pool_evrcmp pool (solvable_evr pool b) (solvable_evr pool a) \<le> 0)"
  using assms by (auto simp: sort_packages_def kernel_related_def Let_def split: if_splits)

text \<open>
  A round of the loop takes the longest run of the last package's name off the end of
  the queue.
\<close>

lemma subqueue_split:
  assumes q: "q \<noteq> []" and sq: "same_name_subqueue pool q = (q', out)"
  shows "q = q' @ rev out"
    and "out \<noteq> []"
    and "\<forall>x\<in>set out. solvable_name pool x = solvable_name pool (last q)"
    and "q' = [] \<or> solvable_name pool (last q') \<noteq> solvable_name pool (last q)"
proof -
  let ?P = "\<lambda>x. solvable_name pool x = solvable_name pool (last q)"
  from sq q have q': "q' = rev (dropWhile ?P (rev q))" and out: "out = takeWhile ?P (rev q)"
    by (simp_all add: same_name_subqueue_eq)
  have "rev (q' @ rev out) = takeWhile ?P (rev q) @ dropWhile ?P (rev q)"
    by (simp add: q' out)
  then have "rev (q' @ rev out) = rev q" by simp
  then show "q = q' @ rev out" by (metis rev_rev_ident)
  from q obtain ys y where "q = ys @ [y]" by (cases q rule: rev_cases) auto
  then show "out \<noteq> []" by (simp add: out)
  show "\<forall>x\<in>set out. ?P x"
    unfolding out by (auto dest: set_takeWhileD)
  show "q' = [] \<or> \<not> ?P (last q')"
  proof (cases "dropWhile ?P (rev q)")
    case Nil
    then show ?thesis by (simp add: q')
  next
    case (Cons y ys)
    then have ne: "dropWhile ?P (rev q) \<noteq> []" by simp
    from hd_dropWhile [OF ne] Cons have "\<not> ?P y" by simp
    moreover from Cons have "last q' = y" by (simp add: q')
    ultimately show ?thesis by simp
  qed
qed

text \<open>
  In a queue ordered by \<open>sort_packages\<close> the packages of one name are adjacent, so
  the run is the whole group of that name, and reading it backwards reverses the order.
\<close>

lemma subqueue_order:
  assumes q: "q \<noteq> []"
    and srt: "sorted_wrt (\<lambda>a b. sort_packages pool rk a b \<le> 0) q"
    and sq: "same_name_subqueue pool q = (q', out)"
  shows "\<forall>x\<in>set q'. solvable_name pool x \<noteq> solvable_name pool (last q)"
    and "sorted_wrt (\<lambda>a b. sort_packages pool rk b a \<le> 0) out"
    and "sorted_wrt (\<lambda>a b. sort_packages pool rk a b \<le> 0) q'"
proof -
  let ?P = "\<lambda>x. solvable_name pool x = solvable_name pool (last q)"
  let ?R = "\<lambda>a b. sort_packages pool rk a b \<le> 0"
  note sp = subqueue_split [OF q sq]
  have "sorted_wrt ?R (q' @ rev out)"
    unfolding sp(1) [symmetric] by (rule srt)
  then have app: "sorted_wrt ?R q'" "sorted_wrt ?R (rev out)"
      "\<forall>a\<in>set q'. \<forall>b\<in>set out. ?R a b"
    by (simp_all add: sorted_wrt_append)
  show "sorted_wrt ?R q'" by (rule app(1))
  from app(2) show "sorted_wrt (\<lambda>a b. sort_packages pool rk b a \<le> 0) out"
    by (simp add: sorted_wrt_rev)
  show "\<forall>x\<in>set q'. \<not> ?P x"
  proof
    fix x assume x: "x \<in> set q'"
    then have "q' \<noteq> []" by auto
    then obtain ys y where q'2: "q' = ys @ [y]" by (cases q' rule: rev_cases) auto
    with sp(4) have ny: "\<not> ?P y" by simp
    from sp(2) obtain z where z: "z \<in> set out" by (cases out) auto
    with sp(3) have nz: "?P z" by blast
    from app(3) z have "?R y z" by (simp add: q'2)
    then have yz: "solvable_name pool y \<le> solvable_name pool z"
      by (rule sort_packages_name_le)
    from app(1) have ys: "\<forall>a\<in>set ys. ?R a y"
      by (simp add: q'2 sorted_wrt_append)
    from x have "x = y \<or> x \<in> set ys" by (auto simp: q'2)
    then show "\<not> ?P x"
    proof
      assume "x = y" with ny show ?thesis by simp
    next
      assume "x \<in> set ys"
      with ys have "?R x y" by blast
      then have "solvable_name pool x \<le> solvable_name pool y"
        by (rule sort_packages_name_le)
      with yz ny nz show ?thesis by auto
    qed
  qed
qed

lemma subqueue_kernel_first:
  assumes "sorted_wrt (\<lambda>a b. sort_packages pool rk b a \<le> 0) out"
    and "\<forall>x\<in>set out. solvable_name pool x = nm" and "0 \<le> rk"
  shows "\<forall>x\<in>set (tl out). \<not> kernel_related pool rk x"
    and "sorted_wrt (\<lambda>a b. kernel_related pool rk a
           \<or> pool_evrcmp pool (solvable_evr pool b) (solvable_evr pool a) \<le> 0) out"
proof -
  show "\<forall>x\<in>set (tl out). \<not> kernel_related pool rk x"
  proof (cases out)
    case Nil then show ?thesis by simp
  next
    case (Cons h t)
    with assms show ?thesis
      by (auto dest!: sort_packages_same_name)
  qed
  have "\<And>a b. a \<in> set out \<Longrightarrow> b \<in> set out \<Longrightarrow> sort_packages pool rk b a \<le> 0 \<Longrightarrow>
      kernel_related pool rk a
           \<or> pool_evrcmp pool (solvable_evr pool b) (solvable_evr pool a) \<le> 0"
    using assms(2,3) sort_packages_same_name by metis
  with assms(1) show "sorted_wrt (\<lambda>a b. kernel_related pool rk a
           \<or> pool_evrcmp pool (solvable_evr pool b) (solvable_evr pool a) \<le> 0) out"
    by (rule sorted_wrt_mono_rel [rotated])
qed

lemma guint_to_int_small: "L < 2 ^ 31 \<Longrightarrow> guint_to_int L = int L"
  by (simp add: guint_to_int_def)

text \<open>One round of the \<open>while\<close> loop.\<close>

lemma subqueue_loop_step:
  assumes "q \<noteq> []" and "same_name_subqueue pool q = (q', out)" and "L < 2 ^ 31"
  shows "subqueue_loop pool (guint_to_int L) q (rr, jb)
     = subqueue_loop pool (guint_to_int L) q'
         (if length out \<le> L then (rr, jb)
          else (True, jb @ map (Pair (SOLVER_INSTALL OR SOLVER_SOLVABLE)) (take L out)
                         @ map (Pair (SOLVER_ERASE OR SOLVER_SOLVABLE)) (drop L out)))"
  using assms
  by (subst subqueue_loop.simps) (simp add: guint_to_int_small push_limit_jobs_eq)

text \<open>
  The insertion sort returns a permutation, and a queue ordered by the callback when
  the callback is total and transitive on the elements; \<open>sort_packages\<close> is so under
  \<open>evr_ordered\<close> and \<open>kernel_unique\<close>.
\<close>

lemma set_insort_cmp: "set (insort_cmp cmp x ys) = insert x (set ys)"
  by (induction ys) auto

lemma mset_insort_cmp: "mset (insort_cmp cmp x ys) = add_mset x (mset ys)"
  by (induction ys) auto

lemma mset_solv_sort: "mset (solv_sort cmp xs) = mset xs"
  by (induction xs) (simp_all add: solv_sort_def mset_insort_cmp)

lemma insort_cmp_sorted:
  assumes "sorted_wrt (\<lambda>a b. cmp a b \<le> 0) ys"
    and "\<And>y. y \<in> set ys \<Longrightarrow> cmp x y \<le> 0 \<or> cmp y x \<le> 0"
    and "\<And>y z. y \<in> set ys \<Longrightarrow> z \<in> set ys \<Longrightarrow> cmp x y \<le> 0 \<Longrightarrow> cmp y z \<le> 0
           \<Longrightarrow> cmp x z \<le> 0"
  shows "sorted_wrt (\<lambda>a b. cmp a b \<le> 0) (insort_cmp cmp x ys)"
  using assms
proof (induction ys)
  case Nil
  then show ?case by simp
next
  case (Cons y ys)
  show ?case
  proof (cases "cmp x y \<le> 0")
    case True
    have "\<forall>z\<in>set ys. cmp x z \<le> 0"
    proof
      fix z assume z: "z \<in> set ys"
      with Cons.prems(1) have "cmp y z \<le> 0" by simp
      with Cons.prems(3) [of y z] True z show "cmp x z \<le> 0" by simp
    qed
    with True Cons.prems(1) show ?thesis by simp
  next
    case False
    with Cons.prems(2) [of y] have yx: "cmp y x \<le> 0" by simp
    have "sorted_wrt (\<lambda>a b. cmp a b \<le> 0) (insort_cmp cmp x ys)"
    proof (rule Cons.IH)
      from Cons.prems(1) show "sorted_wrt (\<lambda>a b. cmp a b \<le> 0) ys" by simp
      show "\<And>y. y \<in> set ys \<Longrightarrow> cmp x y \<le> 0 \<or> cmp y x \<le> 0"
        using Cons.prems(2) by simp
      show "\<And>y z. y \<in> set ys \<Longrightarrow> z \<in> set ys \<Longrightarrow> cmp x y \<le> 0 \<Longrightarrow> cmp y z \<le> 0
           \<Longrightarrow> cmp x z \<le> 0"
      proof -
        fix y' z assume "y' \<in> set ys" "z \<in> set ys" "cmp x y' \<le> 0" "cmp y' z \<le> 0"
        then show "cmp x z \<le> 0" using Cons.prems(3) [of y' z] by simp
      qed
    qed
    with False yx Cons.prems(1) show ?thesis
      by (simp add: set_insort_cmp)
  qed
qed

lemma sort_packages_le_iff:
  "sort_packages pool rk a b \<le> 0 \<longleftrightarrow>
     solvable_name pool a < solvable_name pool b
     \<or> solvable_name pool a = solvable_name pool b
       \<and> (if 0 \<le> rk then \<not> kernel_related pool rk a
             \<and> (kernel_related pool rk b
                \<or> pool_evrcmp pool (solvable_evr pool a) (solvable_evr pool b) \<le> 0)
           else pool_evrcmp pool (solvable_evr pool a) (solvable_evr pool b) \<le> 0)"
  by (auto simp: sort_packages_def kernel_related_def Let_def)

lemma sort_packages_total:
  assumes "evr_ordered pool ps" and "kernel_unique pool rk (x # xs)"
    and "set (x # xs) \<subseteq> set ps" and "y \<in> set xs"
  shows "sort_packages pool rk x y \<le> 0 \<or> sort_packages pool rk y x \<le> 0"
proof -
  from assms(1,3,4) have t: "0 < pool_evrcmp pool (solvable_evr pool x) (solvable_evr pool y) \<longrightarrow>
           pool_evrcmp pool (solvable_evr pool y) (solvable_evr pool x) \<le> 0"
    unfolding evr_ordered_def by auto
  have k: "\<not> (0 \<le> rk \<and> kernel_related pool rk x \<and> kernel_related pool rk y
              \<and> solvable_name pool x = solvable_name pool y)"
  proof
    assume a: "0 \<le> rk \<and> kernel_related pool rk x \<and> kernel_related pool rk y
              \<and> solvable_name pool x = solvable_name pool y"
    with assms(2) have "solvable_name pool x
        \<notin> solvable_name pool ` set (filter (kernel_related pool rk) xs)"
      by (simp add: kernel_unique_def)
    with a assms(4) show False by auto
  qed
  from t k show ?thesis
    unfolding sort_packages_le_iff by (auto split: if_splits)
qed

lemma sort_packages_trans:
  assumes "evr_ordered pool ps" and "a \<in> set ps" and "b \<in> set ps" and "c \<in> set ps"
    and "sort_packages pool rk a b \<le> 0" and "sort_packages pool rk b c \<le> 0"
  shows "sort_packages pool rk a c \<le> 0"
proof -
  from assms(1-4) have t: "pool_evrcmp pool (solvable_evr pool a) (solvable_evr pool b) \<le> 0
             \<and> pool_evrcmp pool (solvable_evr pool b) (solvable_evr pool c) \<le> 0 \<longrightarrow>
             pool_evrcmp pool (solvable_evr pool a) (solvable_evr pool c) \<le> 0"
    unfolding evr_ordered_def by blast
  from assms(5,6) t show ?thesis
    unfolding sort_packages_le_iff by (auto split: if_splits)
qed

lemma kernel_unique_tl: "kernel_unique pool rk (x # xs) \<Longrightarrow> kernel_unique pool rk xs"
  by (auto simp: kernel_unique_def split: if_splits)

lemma solv_sort_sorted_aux:
  assumes "evr_ordered pool ps" and "kernel_unique pool rk xs" and "set xs \<subseteq> set ps"
  shows "sorted_wrt (\<lambda>a b. sort_packages pool rk a b \<le> 0) (solv_sort (sort_packages pool rk) xs)"
  using assms(2,3)
proof (induction xs)
  case Nil
  then show ?case by (simp add: solv_sort_def)
next
  case (Cons x xs)
  have s: "set (solv_sort (sort_packages pool rk) xs) = set xs"
    using mset_solv_sort [of "sort_packages pool rk" xs] by (metis set_mset_mset)
  have "sorted_wrt (\<lambda>a b. sort_packages pool rk a b \<le> 0)
          (insort_cmp (sort_packages pool rk) x (solv_sort (sort_packages pool rk) xs))"
  proof (rule insort_cmp_sorted)
    from Cons show "sorted_wrt (\<lambda>a b. sort_packages pool rk a b \<le> 0)
        (solv_sort (sort_packages pool rk) xs)"
      by (simp add: kernel_unique_tl)
    show "\<And>y. y \<in> set (solv_sort (sort_packages pool rk) xs) \<Longrightarrow>
        sort_packages pool rk x y \<le> 0 \<or> sort_packages pool rk y x \<le> 0"
      unfolding s by (rule sort_packages_total [OF assms(1) Cons.prems(1) Cons.prems(2)])
    show "\<And>y z. y \<in> set (solv_sort (sort_packages pool rk) xs) \<Longrightarrow>
        z \<in> set (solv_sort (sort_packages pool rk) xs) \<Longrightarrow>
        sort_packages pool rk x y \<le> 0 \<Longrightarrow> sort_packages pool rk y z \<le> 0 \<Longrightarrow>
        sort_packages pool rk x z \<le> 0"
      unfolding s using Cons.prems(2) sort_packages_trans [OF assms(1)]
      by (meson list.set_intros(1) list.set_intros(2) subsetD)
  qed
  then show ?case by (simp add: solv_sort_def)
qed

lemma solv_sort_sorted:
  assumes "evr_ordered pool ps" and "kernel_unique pool rk ps"
  shows "sorted_wrt (\<lambda>a b. sort_packages pool rk a b \<le> 0) (solv_sort (sort_packages pool rk) ps)"
  using solv_sort_sorted_aux [OF assms(1) assms(2)] by simp

text \<open>The loop over the install-only names as a fold.\<close>

lemma onlies_loop_fold:
  "onlies_loop pool sk sv ns acc =
     foldl (\<lambda>acc n.
              if int (length (decided_providers pool sv n)) \<le> guint_to_int (installonly_limit sk)
              then acc
              else subqueue_loop pool (guint_to_int (installonly_limit sk))
                     (solv_sort (sort_packages pool (running_kernel sk))
                        (decided_providers pool sv n)) acc)
       acc ns"
  by (induction ns arbitrary: acc) (simp_all add: Let_def)

text \<open>
  \<open>solve\<close> hands a job queue to the solver once or twice; a second time only without
  a solution callback and when the install-only limit asked for it; and when the
  solver reports problems the second time, \<open>solve\<close> returns 1 with no transaction.
\<close>

lemma solve_calls:
  assumes "solve slv pool sk g jb flags user_cb = Inr (r, g', calls)"
  shows "length calls \<le> 2 \<and> hd calls = jb \<and> calls \<noteq> []
     \<and> (length calls = 2 \<longrightarrow>
          \<not> user_cb
          \<and> fst (limit_installonly_packages pool sk (slv (solver_flags_of flags) jb) jb)
          \<and> (problem_count (slv (solver_flags_of flags) (calls ! 1)) \<noteq> 0 \<longrightarrow>
               r = 1 \<and> goal_trans g' = None
               \<and> solv g' = Some (slv (solver_flags_of flags) (calls ! 1))))"
  using assms
  by (auto simp: solve_def finish_solve_def Let_def allow_uninstall_all_but_protected_def
      split: if_splits prod.splits sum.splits)

text \<open>
  C2, as stated, on the example system (limit 2; kernel-1, the running kernel, and
  kernel-2 installed; kernel-3 to be installed).  Sorted as the claim says, by
  descending EVR with the running kernel at the end, the providers are kernel-3,
  kernel-2, kernel-1, and \<open>INSTALL\<close> for the first two leaves \<open>ERASE\<close> for the running
  kernel.  \<open>sort_packages\<close> orders by ascending EVR with the running kernel last
  (kernel-2, kernel-3, kernel-1) and \<open>same_name_subqueue\<close> reads that from the end, so
  the subqueue is kernel-1, kernel-3, kernel-2: the running kernel comes first and is
  kept, and kernel-2 is erased.
\<close>

theorem installonly_limit_counterexample:
  "limit_installonly_packages goal_pool kernel_sack
       (example_solver init_solver_flags [(SOLVER_SOLVABLE OR SOLVER_INSTALL, 6)]) []
     = (True, [(SOLVER_INSTALL OR SOLVER_SOLVABLE, 4), (SOLVER_INSTALL OR SOLVER_SOLVABLE, 6),
               (SOLVER_ERASE OR SOLVER_SOLVABLE, 5)])
   \<and> spec_limit_jobs goal_pool kernel_sack [4, 5, 6]
     = [(SOLVER_INSTALL OR SOLVER_SOLVABLE, 6), (SOLVER_INSTALL OR SOLVER_SOLVABLE, 5),
        (SOLVER_ERASE OR SOLVER_SOLVABLE, 4)]
   \<and> running_kernel kernel_sack = 4
   \<and> solv_sort (sort_packages goal_pool 4) [4, 5, 6] = [5, 6, 4]
   \<and> solv_sort (spec_sort_cmp goal_pool 4) [4, 5, 6] = [6, 5, 4]"
  by code_simp

text \<open>
  C2, amended.  With a limit \<open>L\<close> between 1 and \<open>2^31 - 1\<close>, \<open>limit_installonly_packages\<close>
  goes through the install-only names; a name whose decided providers number more than
  \<open>L\<close> has them sorted by \<open>sort_packages\<close> (name id ascending; within a name the
  running kernel or a package that can depend on it after the others; else EVR
  ascending) and the sorted queue cut up by the loop.  A round of the loop takes the
  run of the last name off the end of the queue, reversed; when the run is longer than
  \<open>L\<close> it pushes an \<open>INSTALL\<close> job for its first \<open>L\<close> entries and an \<open>ERASE\<close> job for
  the rest and requests a re-solve, else it pushes nothing.

  The sorted queue is a permutation of the providers \<open>ps\<close>.  When \<open>pool_evrcmp\<close> is a
  total preorder on their EVRs and no two providers of one name are the running kernel
  or can depend on it, the sorted queue is ordered by the callback.  Of a queue so
  ordered, a round takes the whole group of the last name and leaves a queue so
  ordered; and with a running kernel at most the first entry of the run is the kernel
  or can depend on it, while the entries that are not are in descending EVR order.  So
  the kernel is among the entries kept.  (With two such providers of one name the
  callback is no order, and which of them comes first is up to the sort.)

  \<open>solve\<close> calls the solver at most twice, the second time only when a re-solve was
  requested, and returns 1 without a transaction when the second call reports
  problems.
\<close>

theorem installonly_limit_enforcement:
  assumes "q \<noteq> []" and "same_name_subqueue pool q = (q', out)"
    and "0 < L" and "L < 2 ^ 31" and "installonly_limit sk = L"
  shows "limit_installonly_packages pool sk sv jb1
       = foldl (\<lambda>acc n.
                  if length (decided_providers pool sv n) \<le> L then acc
                  else subqueue_loop pool (guint_to_int L)
                         (solv_sort (sort_packages pool (running_kernel sk))
                            (decided_providers pool sv n)) acc)
           (False, jb1) (installonly sk)
     \<and> mset (solv_sort (sort_packages pool rk) ps) = mset ps
     \<and> (evr_ordered pool ps \<and> kernel_unique pool rk ps \<longrightarrow>
          sorted_wrt (\<lambda>a b. sort_packages pool rk a b \<le> 0)
            (solv_sort (sort_packages pool rk) ps))
     \<and> q = q' @ rev out
     \<and> (\<forall>x\<in>set out. solvable_name pool x = solvable_name pool (last q))
     \<and> subqueue_loop pool (guint_to_int L) q (rr, jb)
         = subqueue_loop pool (guint_to_int L) q'
             (if length out \<le> L then (rr, jb)
              else (True, jb @ map (Pair (SOLVER_INSTALL OR SOLVER_SOLVABLE)) (take L out)
                             @ map (Pair (SOLVER_ERASE OR SOLVER_SOLVABLE)) (drop L out)))
     \<and> (sorted_wrt (\<lambda>a b. sort_packages pool rk a b \<le> 0) q \<longrightarrow>
          (\<forall>x\<in>set q'. solvable_name pool x \<noteq> solvable_name pool (last q))
          \<and> sorted_wrt (\<lambda>a b. sort_packages pool rk a b \<le> 0) q'
          \<and> (0 \<le> rk \<longrightarrow>
               (\<forall>x\<in>set (tl out). \<not> kernel_related pool rk x)
               \<and> sorted_wrt (\<lambda>a b. kernel_related pool rk a
                     \<or> pool_evrcmp pool (solvable_evr pool b) (solvable_evr pool a) \<le> 0) out))
     \<and> (solve slv pool sk g jb0 flags user_cb = Inr (r, g', calls) \<longrightarrow>
          length calls \<le> 2 \<and> hd calls = jb0 \<and> calls \<noteq> []
          \<and> (length calls = 2 \<longrightarrow>
               \<not> user_cb
               \<and> fst (limit_installonly_packages pool sk (slv (solver_flags_of flags) jb0) jb0)
               \<and> (problem_count (slv (solver_flags_of flags) (calls ! 1)) \<noteq> 0 \<longrightarrow>
                    r = 1 \<and> goal_trans g' = None
                    \<and> solv g' = Some (slv (solver_flags_of flags) (calls ! 1)))))"
proof -
  note sp = subqueue_split [OF assms(1) assms(2)]
  note s = subqueue_loop_step [OF assms(1) assms(2) assms(4), of rr jb]
  have f: "limit_installonly_packages pool sk sv jb1
       = foldl (\<lambda>acc n.
                  if length (decided_providers pool sv n) \<le> L then acc
                  else subqueue_loop pool (guint_to_int L)
                         (solv_sort (sort_packages pool (running_kernel sk))
                            (decided_providers pool sv n)) acc)
           (False, jb1) (installonly sk)"
    using assms(3,4,5)
    by (simp add: limit_installonly_packages_def onlies_loop_fold guint_to_int_small
          cong: if_cong)
  have m: "mset (solv_sort (sort_packages pool rk) ps) = mset ps"
    by (rule mset_solv_sort)
  have i: "evr_ordered pool ps \<and> kernel_unique pool rk ps \<longrightarrow>
          sorted_wrt (\<lambda>a b. sort_packages pool rk a b \<le> 0)
            (solv_sort (sort_packages pool rk) ps)"
    by (auto intro: solv_sort_sorted)
  have o: "sorted_wrt (\<lambda>a b. sort_packages pool rk a b \<le> 0) q \<longrightarrow>
          (\<forall>x\<in>set q'. solvable_name pool x \<noteq> solvable_name pool (last q))
          \<and> sorted_wrt (\<lambda>a b. sort_packages pool rk a b \<le> 0) q'
          \<and> (0 \<le> rk \<longrightarrow>
               (\<forall>x\<in>set (tl out). \<not> kernel_related pool rk x)
               \<and> sorted_wrt (\<lambda>a b. kernel_related pool rk a
                     \<or> pool_evrcmp pool (solvable_evr pool b) (solvable_evr pool a) \<le> 0) out)"
  proof (intro impI conjI)
    assume srt: "sorted_wrt (\<lambda>a b. sort_packages pool rk a b \<le> 0) q"
    note so = subqueue_order [OF assms(1) srt assms(2)]
    show "\<forall>x\<in>set q'. solvable_name pool x \<noteq> solvable_name pool (last q)"
      by (rule so(1))
    show "sorted_wrt (\<lambda>a b. sort_packages pool rk a b \<le> 0) q'"
      by (rule so(3))
    assume rk: "0 \<le> rk"
    show "\<forall>x\<in>set (tl out). \<not> kernel_related pool rk x"
      by (rule subqueue_kernel_first(1) [OF so(2) sp(3) rk])
    show "sorted_wrt (\<lambda>a b. kernel_related pool rk a
              \<or> pool_evrcmp pool (solvable_evr pool b) (solvable_evr pool a) \<le> 0) out"
      by (rule subqueue_kernel_first(2) [OF so(2) sp(3) rk])
  qed
  have sc: "solve slv pool sk g jb0 flags user_cb = Inr (r, g', calls) \<longrightarrow>
          length calls \<le> 2 \<and> hd calls = jb0 \<and> calls \<noteq> []
          \<and> (length calls = 2 \<longrightarrow>
               \<not> user_cb
               \<and> fst (limit_installonly_packages pool sk (slv (solver_flags_of flags) jb0) jb0)
               \<and> (problem_count (slv (solver_flags_of flags) (calls ! 1)) \<noteq> 0 \<longrightarrow>
                    r = 1 \<and> goal_trans g' = None
                    \<and> solv g' = Some (slv (solver_flags_of flags) (calls ! 1))))"
    by (rule impI) (rule solve_calls)
  show ?thesis
    by (rule conjI [OF f conjI [OF m conjI [OF i conjI [OF sp(1) conjI [OF sp(3)
          conjI [OF s conjI [OF o sc]]]]]]])
qed

lemma ex_isr: "\<not> isl ex_run"
  by code_simp

lemma ex_calls: "length (snd (snd (projr ex_run))) = 2 \<and> fst (projr ex_run) = 0"
  by code_simp

theorem installonly_limit_enforcement_witness:
  "[5, 6, 4] \<noteq> ([] :: Id list)
   \<and> same_name_subqueue goal_pool [5, 6, 4] = ([], [4, 6, 5])
   \<and> (0 :: nat) < 2 \<and> (2 :: nat) < 2 ^ 31 \<and> installonly_limit kernel_sack = 2
   \<and> decided_providers goal_pool
        (example_solver (solver_flags_of 0) [(SOLVER_SOLVABLE OR SOLVER_INSTALL, 6)]) 12
       = [4, 5, 6]
   \<and> evr_ordered goal_pool [4, 5, 6] \<and> kernel_unique goal_pool 4 [4, 5, 6]
   \<and> solv_sort (sort_packages goal_pool 4) [4, 5, 6] = [5, 6, 4]
   \<and> sorted_wrt (\<lambda>a b. sort_packages goal_pool 4 a b \<le> 0) [5, 6, 4]
   \<and> (0 :: int) \<le> 4
   \<and> kernel_related goal_pool 4 4
   \<and> sorted_wrt (\<lambda>a b. kernel_related goal_pool 4 a
           \<or> pool_evrcmp goal_pool (solvable_evr goal_pool b) (solvable_evr goal_pool a) \<le> 0)
        [4, 6, 5]
   \<and> subqueue_loop goal_pool (guint_to_int 2) [5, 6, 4] (False, [])
       = (True, [(SOLVER_INSTALL OR SOLVER_SOLVABLE, 4), (SOLVER_INSTALL OR SOLVER_SOLVABLE, 6),
                 (SOLVER_ERASE OR SOLVER_SOLVABLE, 5)])
   \<and> ex_run = Inr (projr ex_run)
   \<and> length (snd (snd (projr ex_run))) = 2
   \<and> fst (limit_installonly_packages goal_pool kernel_sack
        (example_solver (solver_flags_of 0) [(SOLVER_SOLVABLE OR SOLVER_INSTALL, 6)])
        [(SOLVER_SOLVABLE OR SOLVER_INSTALL, 6)])"
proof -
  have h1: "[5, 6, 4] \<noteq> ([] :: Id list)" by simp
  have h3: "same_name_subqueue goal_pool [5, 6, 4] = ([], [4, 6, 5])" by code_simp
  have h4: "(0 :: int) \<le> 4" and h5: "(0 :: nat) < 2" and h6: "(2 :: nat) < 2 ^ 31" by simp_all
  have h7: "installonly_limit kernel_sack = 2" by (simp add: kernel_sack_def)
  have dp: "decided_providers goal_pool
        (example_solver (solver_flags_of 0) [(SOLVER_SOLVABLE OR SOLVER_INSTALL, 6)]) 12
       = [4, 5, 6]"
    by code_simp
  have eo: "evr_ordered goal_pool [4, 5, 6]" by code_simp
  have ku: "kernel_unique goal_pool 4 [4, 5, 6]" by code_simp
  have ss: "solv_sort (sort_packages goal_pool 4) [4, 5, 6] = [5, 6, 4]" by code_simp
  have kr: "kernel_related goal_pool 4 4" by (simp add: kernel_related_def)
  have x: "ex_run = Inr (fst (projr ex_run), fst (snd (projr ex_run)), snd (snd (projr ex_run)))"
    using ex_isr by (cases ex_run) simp_all
  have c: "length (snd (snd (projr ex_run))) = 2" using ex_calls by simp
  have e: "subqueue_loop goal_pool (guint_to_int 2) []
             (True, [(SOLVER_INSTALL OR SOLVER_SOLVABLE, 4), (SOLVER_INSTALL OR SOLVER_SOLVABLE, 6),
                     (SOLVER_ERASE OR SOLVER_SOLVABLE, 5)])
         = (True, [(SOLVER_INSTALL OR SOLVER_SOLVABLE, 4), (SOLVER_INSTALL OR SOLVER_SOLVABLE, 6),
                   (SOLVER_ERASE OR SOLVER_SOLVABLE, 5)])"
    by (subst subqueue_loop.simps) simp
  note t = installonly_limit_enforcement [OF h1 h3 h5 h6 h7, where
      sv = "example_solver (solver_flags_of 0) [(SOLVER_SOLVABLE OR SOLVER_INSTALL, 6)]"
      and ?jb1.0 = "[]" and rr = False and jb = "[]" and rk = 4 and ps = "[4, 5, 6]"
      and slv = example_solver and g = install_kernel_goal
      and ?jb0.0 = "[(SOLVER_SOLVABLE OR SOLVER_INSTALL, 6)]"
      and flags = 0 and user_cb = False and r = "fst (projr ex_run)"
      and g' = "fst (snd (projr ex_run))" and calls = "snd (snd (projr ex_run))"]
  note t3 = t [THEN conjunct2, THEN conjunct2, THEN conjunct1]
  note t6 = t [THEN conjunct2, THEN conjunct2, THEN conjunct2, THEN conjunct2, THEN conjunct2,
      THEN conjunct1]
  note t7 = t [THEN conjunct2, THEN conjunct2, THEN conjunct2, THEN conjunct2, THEN conjunct2,
      THEN conjunct2, THEN conjunct1]
  note t8 = t [THEN conjunct2, THEN conjunct2, THEN conjunct2, THEN conjunct2, THEN conjunct2,
      THEN conjunct2, THEN conjunct2]
  have h2: "sorted_wrt (\<lambda>a b. sort_packages goal_pool 4 a b \<le> 0) [5, 6, 4]"
    using t3 [THEN mp, OF conjI [OF eo ku]] unfolding ss .
  have s: "sorted_wrt (\<lambda>a b. kernel_related goal_pool 4 a
           \<or> pool_evrcmp goal_pool (solvable_evr goal_pool b) (solvable_evr goal_pool a) \<le> 0)
        [4, 6, 5]"
    by (rule t7 [THEN mp, OF h2, THEN conjunct2, THEN conjunct2, THEN mp, OF h4, THEN conjunct2])
  from t6 e have l: "subqueue_loop goal_pool (guint_to_int 2) [5, 6, 4] (False, [])
       = (True, [(SOLVER_INSTALL OR SOLVER_SOLVABLE, 4), (SOLVER_INSTALL OR SOLVER_SOLVABLE, 6),
                 (SOLVER_ERASE OR SOLVER_SOLVABLE, 5)])"
    by simp
  note t9 = t8 [folded ex_run_def, THEN mp, OF x]
  have f: "fst (limit_installonly_packages goal_pool kernel_sack
        (example_solver (solver_flags_of 0) [(SOLVER_SOLVABLE OR SOLVER_INSTALL, 6)])
        [(SOLVER_SOLVABLE OR SOLVER_INSTALL, 6)])"
    by (rule t9 [THEN conjunct2, THEN conjunct2, THEN conjunct2, THEN mp, OF c,
          THEN conjunct2, THEN conjunct1])
  from x have x': "ex_run = Inr (projr ex_run)" by simp
  show ?thesis
    by (intro conjI) (rule h1 h3 h5 h6 h7 dp eo ku ss h2 h4 kr s l x' c f)+
qed

subsection \<open>Remove-helper construction\<close>

text \<open>
  C6 on the example: package 6 is an update that displaces packages 4 and 5.  The inner
  loop runs twice but reads \<open>pkglist\<close> at the outer index each time: as the first
  install it appends package 4 twice and never package 5; as the second install it
  appends package 5 twice and never package 4; as the third install it reads past the
  end of the list.
\<close>

theorem remove_helper_reads_outer_index:
  "hy_goal_list_obsoleted_by_package example_env update_goal updating_pkg
     = Inr [package_new example_env 4, package_new example_env 5]
   \<and> build_remove_helper example_env update_goal [updating_pkg] 0 []
     = Inr [(package_new example_env 4) \<lparr> pkg_action := HIF_STATE_ACTION_CLEANUP \<rparr>,
            (package_new example_env 4) \<lparr> pkg_action := HIF_STATE_ACTION_CLEANUP \<rparr>]
   \<and> build_remove_helper example_env update_goal [installed_pkg, updating_pkg] 0 []
     = Inr [(package_new example_env 5) \<lparr> pkg_action := HIF_STATE_ACTION_CLEANUP \<rparr>,
            (package_new example_env 5) \<lparr> pkg_action := HIF_STATE_ACTION_CLEANUP \<rparr>]
   \<and> build_remove_helper example_env update_goal [installed_pkg, installed_pkg, updating_pkg] 0 []
     = Inl InvalidRead
   \<and> is_update updating_pkg
   \<and> pkg_id (package_new example_env 4) = 4 \<and> pkg_id (package_new example_env 5) = 5"
  by code_simp

subsection \<open>The free-space check\<close>









































text \<open>
  What \<open>hif_transaction_commit\<close> does read is the cache directory, when the cache is
  not kept: without one it fails after the run; with one it deletes the file of the
  installed package if that lies under it.
\<close>

lemma commit_cleans_cache:
  "fst (hif_transaction_commit (cleaning_env None) update_goal example_transaction)
     = Some (TrError HIF_ERROR_FAILED_CONFIG_PARSING ''Failed to get value for CacheDir'' [])
   \<and> ts_ops (snd (hif_transaction_commit (cleaning_env (Some ''/var/cache'')) update_goal
                    example_transaction))
     = [TsSetRootDir,
        TsAddInstall (Some ''/var/cache/main/packages/tour-4-6.noarch.rpm'') True False,
        TsOrder, TsRun [] [],
        GFileDelete ''/var/cache/main/packages/tour-4-6.noarch.rpm'', TsEmpty]
   \<and> ts_ops (snd (hif_transaction_commit (cleaning_env (Some ''/srv'')) update_goal
                    example_transaction))
     = [TsSetRootDir,
        TsAddInstall (Some ''/var/cache/main/packages/tour-4-6.noarch.rpm'') True False,
        TsOrder, TsRun [] [], TsEmpty]"
  by code_simp



end
